theory Spec2Isabelle
  imports Main
begin

section \<open>Python string helpers\<close>

text \<open>
  \<open>str.startswith\<close>, and \<open>str.split\<close> with a separator: the string is cut at the
  non-overlapping occurrences of the separator, scanned from the left. Python raises
  ValueError for an empty separator; the only separator the program uses is \<open>tag:\<close>,
  and with an empty one \<open>split\<close> here returns the string uncut.
\<close>

definition startswith :: "string \<Rightarrow> string \<Rightarrow> bool" where
  "startswith s p = (take (length p) s = p)"

function split_from :: "string \<Rightarrow> string \<Rightarrow> string \<Rightarrow> string list" where
  "split_from sep cur s =
     (if s = [] then [cur]
      else if sep \<noteq> [] \<and> startswith s sep
        then cur # split_from sep [] (drop (length sep) s)
      else split_from sep (cur @ [hd s]) (tl s))"
  by pat_completeness auto
termination
  by (relation "measure (\<lambda>(sep, cur, s). length s)") auto

declare split_from.simps [simp del]

definition split :: "string \<Rightarrow> string \<Rightarrow> string list" where
  "split s sep = split_from sep [] s"

section \<open>Responses of the management API\<close>

text \<open>
  The boto3 clients are the program's input. A client is a record of the responses it
  gives; a paginated call answers with the list of its pages. The fields read with
  \<open>d["k"]\<close> are the ones the service always sends and are plain record fields; the
  ones read with \<open>d.get("k")\<close> are optional.
\<close>

record rule =
  Key :: string
  Values :: "string list"

record mw_target =
  Targets :: "rule list option"

record tag_filter =
  filter_Name :: string
  filter_Values :: "string list"

record resource =
  ResourceType :: string
  ResourceArn :: string

record ec2_instance =
  InstanceId :: string

record reservation =
  Instances :: "ec2_instance list"

text \<open>
  A datetime: the wall-clock fields as microseconds since 1970-01-01T00:00:00 (the
  resolution of Python's datetime), and the UTC offset of its \<open>tzinfo\<close> in
  microseconds, \<open>None\<close> for a naive datetime.
\<close>

record datetime =
  wall :: int
  tzinfo :: "int option"

datatype time_value = TimeStr string | TimeDatetime datetime

record maintenance_window =
  WindowId :: string
  Name :: "string option"
  NextExecutionTime :: "time_value option"

text \<open>
  A Python value, as \<open>json.loads\<close> returns it or as a response field holds it. A
  number is kept as an integer: the program applies no arithmetic to one, and an integer
  and a float behave alike under \<open>.get\<close>, \<open>in\<close> and \<open>isinstance(_, str)\<close>. A dict is
  the list of its items, each key once.
\<close>

datatype pyval =
    PNone
  | PBool bool
  | PNumber int
  | PStr string
  | PList "pyval list"
  | PDict "(string \<times> pyval) list"

record window_execution =
  WindowExecutionId :: string
  StartTime :: int

record execution_task =
  TaskArn :: "string option"
  TaskExecutionId :: string

record task_invocation =
  Parameters :: "pyval option"
  ExecutionId :: "string option"

record command_invocation =
  Status :: "string option"
  cmd_InstanceId :: "string option"

record ssm_client =
  describe_maintenance_windows :: "maintenance_window list"
  describe_maintenance_window_targets :: "string \<Rightarrow> mw_target list"
  describe_maintenance_window_executions :: "string \<Rightarrow> window_execution list"
  describe_maintenance_window_execution_tasks :: "string \<Rightarrow> execution_task list"
  describe_maintenance_window_execution_task_invocations ::
    "string \<Rightarrow> string \<Rightarrow> task_invocation list list"
  list_command_invocations :: "string \<Rightarrow> command_invocation list list"

record ec2_client =
  describe_instances :: "tag_filter list \<Rightarrow> reservation list list"

record resourcegroups_client =
  list_group_resources :: "string \<Rightarrow> resource list list"

record session =
  client_ssm :: ssm_client
  client_ec2 :: ec2_client
  client_resourcegroups :: resourcegroups_client

record credentials =
  AccessKeyId :: string
  SecretAccessKey :: string
  SessionToken :: string

datatype py_error =
    ClientError | JSONDecodeError | AttributeError | TypeError | ValueError
  | IndexError | NameError | RecursionError | StopIteration

text \<open>The rows of \<open>accounts.csv\<close> and of the staged reports.\<close>

record account_row =
  row_account_id :: string
  row_role_name :: string
  row_region :: string

record 'c window_row =
  AccountId :: string
  Region :: string
  RoleName :: string
  MaintenanceWindowId :: string
  MaintenanceWindowName :: string
  TargetInstanceCount :: 'c

record 'c outcome_row = "'c window_row" +
  Success :: nat
  Failure :: nat

text \<open>
  What lies outside the program: the STS endpoint (\<open>RoleArn\<close>, \<open>RoleSessionName\<close>),
  which may refuse a role, the constructor of a session from credentials and a region,
  the library parsers \<open>json.loads\<close> and \<open>datetime.fromisoformat\<close>, the clock (the
  wall-clock microseconds of \<open>datetime.now(timezone.utc)\<close>), the two local CSV files
  and the rows staged in the bucket.
\<close>

record world =
  sts_assume_role :: "string \<Rightarrow> string \<Rightarrow> py_error + credentials"
  boto3_Session :: "credentials \<Rightarrow> string \<Rightarrow> session"
  json_loads :: "string \<Rightarrow> py_error + pyval"
  fromisoformat :: "string \<Rightarrow> py_error + datetime"
  utc_now :: int
  accounts_csv :: "account_row list"
  email_account_csv :: "account_row list"
  staged_rows :: "string window_row list"

text \<open>
  The queries and effects the program issues, in the order it issues them. A call is
  recorded once it has returned.
\<close>

datatype api_call =
    AssumeRole string string string
  | DescribeMaintenanceWindows
  | DescribeMaintenanceWindowTargets string
  | ListGroupResources string
  | DescribeInstances "tag_filter list"
  | DescribeMaintenanceWindowExecutions string
  | DescribeMaintenanceWindowExecutionTasks string
  | DescribeMaintenanceWindowExecutionTaskInvocations string string
  | ListCommandInvocations string
  | GetObject string string
  | PutForecastRows string string "nat window_row list"
  | PutOutcomeRows string string "string outcome_row list"
  | SendEmail string

section \<open>Target Resolver: \<open>get_target_count\<close>\<close>

text \<open>
  The inner loops of case 3: every page of \<open>list_group_resources\<close> is walked and
  \<open>count\<close> goes up by one for each resource of type \<open>AWS::EC2::Instance\<close>.
\<close>

definition group_resource_count :: "resourcegroups_client \<Rightarrow> string \<Rightarrow> nat" where
  "group_resource_count resourcegroups group_name =
     fold (\<lambda>page count.
             fold (\<lambda>resource count.
                     if ResourceType resource = ''AWS::EC2::Instance'' then count + 1
                     else count)
                  page count)
          (list_group_resources resourcegroups group_name) 0"

text \<open>
  The body of \<open>for rule in mw_target.get("Targets", [])\<close>. The loop state is the running
  \<open>total\<close>, the \<open>tag_filters\<close> of this grouping and the queries issued so far.
\<close>

definition rule_step ::
  "resourcegroups_client \<Rightarrow> rule \<Rightarrow> nat \<times> tag_filter list \<times> api_call list
     \<Rightarrow> nat \<times> tag_filter list \<times> api_call list" where
  "rule_step resourcegroups rule = (\<lambda>(total, tag_filters, calls).
     let key = Key rule; values = Values rule in
     if key = ''InstanceIds'' then (total + length values, tag_filters, calls)
     else if startswith key ''tag:'' then
       (let tag_key = split key ''tag:'' ! 1 in
        (total, tag_filters @ [\<lparr>filter_Name = ''tag:'' @ tag_key, filter_Values = values\<rparr>], calls))
     else if key = ''resource-groups:Name'' then
       (let (total', calls') =
              fold (\<lambda>group_name (total, calls).
                      (total + group_resource_count resourcegroups group_name,
                       calls @ [ListGroupResources group_name]))
                   values (total, calls)
        in (total', tag_filters, calls'))
     else (total, tag_filters, calls))"

text \<open>\<open>mw_target.get("Targets", [])\<close>.\<close>

definition rules_of :: "mw_target \<Rightarrow> rule list" where
  "rules_of mw_target = (case Targets mw_target of None \<Rightarrow> [] | Some rules \<Rightarrow> rules)"

text \<open>
  The three nested loops that fill the set \<open>instance_ids\<close> from the pages of
  \<open>describe_instances\<close>.
\<close>

definition collect_instance_ids :: "reservation list list \<Rightarrow> string set" where
  "collect_instance_ids pages =
     fold (\<lambda>page instance_ids.
             fold (\<lambda>reservation instance_ids.
                     fold (\<lambda>inst instance_ids. insert (InstanceId inst) instance_ids)
                          (Instances reservation) instance_ids)
                  page instance_ids)
          pages {}"

text \<open>The body of \<open>for mw_target in targets_response["Targets"]\<close>.\<close>

definition target_step ::
  "ec2_client \<Rightarrow> resourcegroups_client \<Rightarrow> mw_target \<Rightarrow> nat \<times> api_call list
     \<Rightarrow> nat \<times> api_call list" where
  "target_step ec2 resourcegroups mw_target = (\<lambda>(total, calls).
     let (total, tag_filters, calls) =
           fold (rule_step resourcegroups) (rules_of mw_target) (total, [], calls)
     in if tag_filters \<noteq> [] then
          (total + card (collect_instance_ids (describe_instances ec2 tag_filters)),
           calls @ [DescribeInstances tag_filters])
        else (total, calls))"

definition get_target_count ::
  "ssm_client \<Rightarrow> ec2_client \<Rightarrow> resourcegroups_client \<Rightarrow> string \<Rightarrow> api_call list
     \<Rightarrow> nat \<times> api_call list" where
  "get_target_count ssm ec2 resourcegroups window_id calls =
     fold (target_step ec2 resourcegroups)
          (describe_maintenance_window_targets ssm window_id)
          (0, calls @ [DescribeMaintenanceWindowTargets window_id])"

section \<open>Window Scheduler Filter: \<open>runs_today\<close>\<close>

text \<open>\<open>s.replace("Z", "+00:00")\<close>: every \<open>Z\<close> of the string is replaced.\<close>

definition replace_Z :: "string \<Rightarrow> string" where
  "replace_Z s = concat (map (\<lambda>c. if c = CHR ''Z'' then ''+00:00'' else [c]) s)"

definition day_micros :: int where
  "day_micros = 86400000000"

text \<open>
  Aware datetimes are compared by their instant on the UTC time line: the wall clock
  minus the UTC offset.
\<close>

definition instant :: "datetime \<Rightarrow> int" where
  "instant d = wall d - (case tzinfo d of None \<Rightarrow> 0 | Some off \<Rightarrow> off)"

definition runs_today ::
  "(string \<Rightarrow> py_error + datetime) \<Rightarrow> int \<Rightarrow> time_value \<Rightarrow> py_error + bool" where
  "runs_today parse now next_execution_time =
     (case (case next_execution_time of
              TimeStr s \<Rightarrow> parse (replace_Z s)
            | TimeDatetime d \<Rightarrow> Inr d) of
        Inl e \<Rightarrow> Inl e
      | Inr d \<Rightarrow>
          (let next_execution_time = (if tzinfo d = None then d\<lparr>tzinfo := Some 0\<rparr> else d);
               now_utc = \<lparr>wall = now, tzinfo = Some 0\<rparr>;
               start_of_today = now_utc\<lparr>wall := wall now_utc - wall now_utc mod day_micros\<rparr>;
               end_of_today = start_of_today\<lparr>wall := wall start_of_today + day_micros\<rparr>
           in Inr (instant start_of_today \<le> instant next_execution_time
                   \<and> instant next_execution_time < instant end_of_today)))"

section \<open>Credential broker and the pre-run handler\<close>

definition assume_role :: "world \<Rightarrow> string \<Rightarrow> string \<Rightarrow> string \<Rightarrow> py_error + session" where
  "assume_role w account_id role_name region =
     (let role_arn = ''arn:aws:iam::'' @ account_id @ '':role/'' @ role_name in
      case sts_assume_role w role_arn ''MWCheckSession'' of
        Inl e \<Rightarrow> Inl e
      | Inr creds \<Rightarrow> Inr (boto3_Session w creds region))"

text \<open>A \<open>for\<close> loop whose body may raise: the first exception ends the loop.\<close>

fun for_each :: "('a \<Rightarrow> 's \<Rightarrow> py_error + 's) \<Rightarrow> 'a list \<Rightarrow> 's \<Rightarrow> py_error + 's" where
  "for_each body [] s = Inr s"
| "for_each body (x # xs) s =
     (case body x s of Inl e \<Rightarrow> Inl e | Inr s' \<Rightarrow> for_each body xs s')"

text \<open>The body of \<open>for mw in response["WindowIdentities"]\<close>.\<close>

definition window_step ::
  "world \<Rightarrow> session \<Rightarrow> account_row \<Rightarrow> maintenance_window
     \<Rightarrow> nat window_row list \<times> api_call list
     \<Rightarrow> py_error + nat window_row list \<times> api_call list" where
  "window_step w session row mw = (\<lambda>(output_rows, calls).
     case NextExecutionTime mw of
       None \<Rightarrow> Inr (output_rows, calls)
     | Some t \<Rightarrow>
         if \<not> startswith (case Name mw of None \<Rightarrow> [] | Some n \<Rightarrow> n) ''mmpatching''
         then Inr (output_rows, calls)
         else
           (case runs_today (fromisoformat w) (utc_now w) t of
              Inl e \<Rightarrow> Inl e
            | Inr today \<Rightarrow>
                if today then
                  (let (target_count, calls) =
                         get_target_count (client_ssm session) (client_ec2 session)
                           (client_resourcegroups session) (WindowId mw) calls
                   in Inr (output_rows @
                             [\<lparr>AccountId = row_account_id row, Region = row_region row,
                               RoleName = row_role_name row, MaintenanceWindowId = WindowId mw,
                               MaintenanceWindowName = (case Name mw of None \<Rightarrow> [] | Some n \<Rightarrow> n),
                               TargetInstanceCount = target_count\<rparr>],
                           calls))
                else Inr (output_rows, calls)))"

text \<open>The body of \<open>for row in pre_patch_rows\<close> in \<open>lambda_handler\<close>.\<close>

definition account_step ::
  "world \<Rightarrow> account_row \<Rightarrow> nat window_row list \<times> api_call list
     \<Rightarrow> py_error + nat window_row list \<times> api_call list" where
  "account_step w row = (\<lambda>(output_rows, calls).
     case assume_role w (row_account_id row) (row_role_name row) (row_region row) of
       Inl e \<Rightarrow> Inl e
     | Inr session \<Rightarrow>
         for_each (window_step w session row)
           (describe_maintenance_windows (client_ssm session))
           (output_rows,
            calls @ [AssumeRole (row_account_id row) (row_role_name row) (row_region row),
                     DescribeMaintenanceWindows]))"

definition load_shared_account :: "account_row list \<Rightarrow> py_error + account_row" where
  "load_shared_account rows = (case rows of [] \<Rightarrow> Inl StopIteration | row # _ \<Rightarrow> Inr row)"

record handler_result =
  status :: string
  records_written :: nat
  message :: "string option"

definition lambda_handler :: "world \<Rightarrow> py_error + handler_result \<times> api_call list" where
  "lambda_handler w =
     (case for_each (account_step w) (accounts_csv w) ([], []) of
        Inl e \<Rightarrow> Inl e
      | Inr (output_rows, calls) \<Rightarrow>
          if output_rows = [] then
            Inr (\<lparr>status = ''success'', records_written = 0,
                  message = Some ''No MWs found, notification skipped''\<rparr>, calls)
          else
            (case load_shared_account (email_account_csv w) of
               Inl e \<Rightarrow> Inl e
             | Inr email_cfg \<Rightarrow>
                 (case assume_role w (row_account_id email_cfg) (row_role_name email_cfg)
                         (row_region email_cfg) of
                    Inl e \<Rightarrow> Inl e
                  | Inr session \<Rightarrow>
                      Inr (\<lparr>status = ''success'', records_written = length output_rows,
                            message = None\<rparr>,
                           calls @
                             [AssumeRole (row_account_id email_cfg) (row_role_name email_cfg)
                                (row_region email_cfg),
                              PutForecastRows ''mmpatching-custom-patchbaseline-dev''
                                ''pre_patch_notification/mw-running-today-output.csv''
                                output_rows,
                              SendEmail ''Maintenance Windows Running Today'']))))"

section \<open>Status Aggregator: \<open>get_patch_status_counts\<close>\<close>

text \<open>
  \<open>list.sort(key=..., reverse=True)\<close> is stable: CPython reverses the list, sorts it
  stably in ascending order and reverses it again, so equal keys keep their input order.
\<close>

definition sort_reverse :: "('a \<Rightarrow> int) \<Rightarrow> 'a list \<Rightarrow> 'a list" where
  "sort_reverse key xs = rev (sort_key key (rev xs))"

text \<open>\<open>x.get(k, default)\<close>: only a dict has the method.\<close>

definition py_get :: "pyval \<Rightarrow> string \<Rightarrow> pyval \<Rightarrow> py_error + pyval" where
  "py_get x k dflt =
     (case x of
        PDict d \<Rightarrow> Inr (case map_of d k of None \<Rightarrow> dflt | Some v \<Rightarrow> v)
      | _ \<Rightarrow> Inl AttributeError)"

text \<open>
  \<open>x in operation\<close> for a string \<open>x\<close>: membership in a list, substring of a string,
  key of a dict; the other values are not iterable.
\<close>

definition is_substring :: "string \<Rightarrow> string \<Rightarrow> bool" where
  "is_substring x s = list_ex (\<lambda>i. startswith (drop i s) x) [0..<Suc (length s)]"

fun py_in :: "string \<Rightarrow> pyval \<Rightarrow> py_error + bool" where
  "py_in x (PList xs) = Inr (PStr x \<in> set xs)"
| "py_in x (PStr s) = Inr (is_substring x s)"
| "py_in x (PDict d) = Inr (x \<in> fst ` set d)"
| "py_in x PNone = Inl TypeError"
| "py_in x (PBool b) = Inl TypeError"
| "py_in x (PNumber n) = Inl TypeError"

text \<open>
  The lines that compute \<open>operation\<close> from an invocation. Only \<open>JSONDecodeError\<close> is
  caught; an exception of \<open>.get\<close> inside the \<open>try\<close> is not.
\<close>

definition parse_operation ::
  "(string \<Rightarrow> py_error + pyval) \<Rightarrow> task_invocation \<Rightarrow> py_error + pyval" where
  "parse_operation loads invocation =
     (let raw_params = (case Parameters invocation of None \<Rightarrow> PStr [] | Some v \<Rightarrow> v);
          operation = PList []
      in case raw_params of
           PStr raw \<Rightarrow>
             if raw \<noteq> [] then
               (case loads raw of
                  Inl e \<Rightarrow> if e = JSONDecodeError then Inr operation else Inl e
                | Inr parsed \<Rightarrow>
                    (case py_get parsed ''parameters'' (PDict []) of
                       Inl e \<Rightarrow> Inl e
                     | Inr parameters \<Rightarrow> py_get parameters ''Operation'' (PList [])))
             else Inr operation
         | _ \<Rightarrow> Inr operation)"

text \<open>
  The failure statuses of the two copies of the function: the tuple of
  \<open>post-patch-notification.py\<close> and the tuple of \<open>combined_notification.py\<close>. The
  copies differ in nothing else, so the model takes the tuple as its first argument.
\<close>

definition failure_statuses_post :: "string list" where
  "failure_statuses_post = [''Failed'', ''TimedOut'', ''Cancelled'', ''ExecutionTimedOut'']"

definition failure_statuses_combined :: "string list" where
  "failure_statuses_combined =
     [''Failed'', ''TimedOut'', ''Cancelled'', ''ExecutionTimedOut'', ''In Progress'']"

text \<open>The body of \<open>for cmd_inv in cmd_page["CommandInvocations"]\<close>.\<close>

definition status_step :: "string list \<Rightarrow> command_invocation \<Rightarrow> nat \<times> nat \<Rightarrow> nat \<times> nat" where
  "status_step failure_statuses cmd_inv = (\<lambda>(success, failure).
     let inst_status = Status cmd_inv in
     if inst_status = Some ''Success'' then (success + 1, failure)
     else if inst_status \<in> set (map Some failure_statuses) then (success, failure + 1)
     else (success, failure))"

text \<open>
  The body of \<open>for inv in page["WindowExecutionTaskInvocationIdentities"]\<close>. The loop
  state is \<open>success\<close>, \<open>failure\<close> and the queries issued so far.
\<close>

definition invocation_step ::
  "string list \<Rightarrow> ssm_client \<Rightarrow> (string \<Rightarrow> py_error + pyval) \<Rightarrow> task_invocation
     \<Rightarrow> nat \<times> nat \<times> api_call list \<Rightarrow> py_error + nat \<times> nat \<times> api_call list" where
  "invocation_step failure_statuses ssm loads invocation = (\<lambda>(success, failure, calls).
     case parse_operation loads invocation of
       Inl e \<Rightarrow> Inl e
     | Inr operation \<Rightarrow>
         (case py_in ''Install'' operation of
            Inl e \<Rightarrow> Inl e
          | Inr install \<Rightarrow>
              if \<not> install then Inr (success, failure, calls)
              else
                (case ExecutionId invocation of
                   None \<Rightarrow> Inr (success, failure, calls)
                 | Some command_id \<Rightarrow>
                     if command_id = [] then Inr (success, failure, calls)
                     else
                       (let (success, failure) =
                              fold (\<lambda>cmd_page. fold (status_step failure_statuses) cmd_page)
                                   (list_command_invocations ssm command_id)
                                   (success, failure)
                        in Inr (success, failure,
                                calls @ [ListCommandInvocations command_id])))))"

text \<open>The body of \<open>for task in tasks\<close>.\<close>

definition task_step ::
  "string list \<Rightarrow> ssm_client \<Rightarrow> (string \<Rightarrow> py_error + pyval) \<Rightarrow> string \<Rightarrow> execution_task
     \<Rightarrow> nat \<times> nat \<times> api_call list \<Rightarrow> py_error + nat \<times> nat \<times> api_call list" where
  "task_step failure_statuses ssm loads execution_id task = (\<lambda>(success, failure, calls).
     if TaskArn task \<noteq> Some ''AWS-RunPatchBaseline'' then Inr (success, failure, calls)
     else
       (let task_id = TaskExecutionId task in
        for_each (\<lambda>page. for_each (invocation_step failure_statuses ssm loads) page)
          (describe_maintenance_window_execution_task_invocations ssm execution_id task_id)
          (success, failure,
           calls @ [DescribeMaintenanceWindowExecutionTaskInvocations execution_id task_id])))"

text \<open>
  The function from \<open>success = 0\<close> on: everything it does after the execution has
  been chosen, as a function of the execution id.
\<close>

definition count_execution ::
  "string list \<Rightarrow> ssm_client \<Rightarrow> (string \<Rightarrow> py_error + pyval) \<Rightarrow> string \<Rightarrow> api_call list
     \<Rightarrow> py_error + nat \<times> nat \<times> api_call list" where
  "count_execution failure_statuses ssm loads execution_id calls =
     for_each (task_step failure_statuses ssm loads execution_id)
       (describe_maintenance_window_execution_tasks ssm execution_id)
       (0, 0, calls @ [DescribeMaintenanceWindowExecutionTasks execution_id])"

definition get_patch_status_counts ::
  "string list \<Rightarrow> ssm_client \<Rightarrow> (string \<Rightarrow> py_error + pyval) \<Rightarrow> string \<Rightarrow> api_call list
     \<Rightarrow> py_error + nat \<times> nat \<times> api_call list" where
  "get_patch_status_counts failure_statuses ssm loads window_id calls =
     (if \<not> startswith window_id ''mw-'' then Inr (0, 0, calls)
      else
        (let executions = describe_maintenance_window_executions ssm window_id;
             calls = calls @ [DescribeMaintenanceWindowExecutions window_id]
         in if executions = [] then Inr (0, 0, calls)
            else
              (case sort_reverse StartTime executions of
                 [] \<Rightarrow> Inl IndexError
               | execution # _ \<Rightarrow>
                   count_execution failure_statuses ssm loads
                     (WindowExecutionId execution) calls)))"

section \<open>The post-run function and its session cache\<close>

record session_cache =
  cached_session :: "session option"
  cached_account_id :: "string option"
  cached_role_name :: "string option"
  cached_region :: "string option"

text \<open>
  The \<open>if\<close> statement at the head of the row loop: the broker is called when the
  slot is empty or one of the three keys differs, and the slot is overwritten.
\<close>

definition row_session ::
  "world \<Rightarrow> string \<Rightarrow> string \<Rightarrow> string \<Rightarrow> session_cache \<times> api_call list
     \<Rightarrow> py_error + session_cache \<times> api_call list" where
  "row_session w account_id role_name region = (\<lambda>(cache, calls).
     if cached_session cache = None \<or> Some account_id \<noteq> cached_account_id cache
        \<or> Some role_name \<noteq> cached_role_name cache \<or> Some region \<noteq> cached_region cache
     then
       (case assume_role w account_id role_name region of
          Inl e \<Rightarrow> Inl e
        | Inr new_session \<Rightarrow>
            Inr (\<lparr>cached_session = Some new_session, cached_account_id = Some account_id,
                  cached_role_name = Some role_name, cached_region = Some region\<rparr>,
                 calls @ [AssumeRole account_id role_name region]))
     else Inr (cache, calls))"

text \<open>The body of \<open>for row in pre_patch_rows\<close> in \<open>post_patch_function\<close>.\<close>

definition post_row_step ::
  "string list \<Rightarrow> world \<Rightarrow> string window_row
     \<Rightarrow> session_cache \<times> string outcome_row list \<times> api_call list
     \<Rightarrow> py_error + session_cache \<times> string outcome_row list \<times> api_call list" where
  "post_row_step failure_statuses w row = (\<lambda>(cache, post_patch_rows, calls).
     let account_id = AccountId row; role_name = RoleName row; region = Region row;
         window_id = MaintenanceWindowId row; window_name = MaintenanceWindowName row
     in case row_session w account_id role_name region (cache, calls) of
          Inl e \<Rightarrow> Inl e
        | Inr (cache, calls) \<Rightarrow>
            (case cached_session cache of
               None \<Rightarrow> Inl AttributeError
             | Some session \<Rightarrow>
                 (case get_patch_status_counts failure_statuses (client_ssm session)
                         (json_loads w) window_id calls of
                    Inl e \<Rightarrow> Inl e
                  | Inr (success, failure, calls) \<Rightarrow>
                      Inr (cache,
                           post_patch_rows @
                             [\<lparr>AccountId = account_id, Region = region, RoleName = role_name,
                               MaintenanceWindowId = window_id,
                               MaintenanceWindowName = window_name,
                               TargetInstanceCount = TargetInstanceCount row,
                               Success = success, Failure = failure\<rparr>],
                           calls))))"

definition empty_cache :: session_cache where
  "empty_cache = \<lparr>cached_session = None, cached_account_id = None,
                   cached_role_name = None, cached_region = None\<rparr>"

text \<open>
  \<open>post_patch_function\<close>. Neither file imports \<open>sys\<close>, so the \<open>sys.exit(0)\<close> of
  the branch for no staged rows raises NameError.
\<close>

definition post_patch_function :: "string list \<Rightarrow> world \<Rightarrow> py_error + api_call list" where
  "post_patch_function failure_statuses w =
     (case load_shared_account (email_account_csv w) of
        Inl e \<Rightarrow> Inl e
      | Inr shared \<Rightarrow>
          (case assume_role w (row_account_id shared) (row_role_name shared)
                  (row_region shared) of
             Inl e \<Rightarrow> Inl e
           | Inr session \<Rightarrow>
               (let calls = [AssumeRole (row_account_id shared) (row_role_name shared)
                               (row_region shared),
                             GetObject ''mmpatching-custom-patchbaseline-dev''
                               ''pre_patch_notification/mw-running-today-output.csv''];
                    pre_patch_rows = staged_rows w
                in if pre_patch_rows = [] then Inl NameError
                   else
                     (case for_each (post_row_step failure_statuses w) pre_patch_rows
                             (empty_cache, [], calls) of
                        Inl e \<Rightarrow> Inl e
                      | Inr (cache, post_patch_rows, calls) \<Rightarrow>
                          (case load_shared_account (email_account_csv w) of
                             Inl e \<Rightarrow> Inl e
                           | Inr email_cfg \<Rightarrow>
                               (case assume_role w (row_account_id email_cfg)
                                       (row_role_name email_cfg) (row_region email_cfg) of
                                  Inl e \<Rightarrow> Inl e
                                | Inr session \<Rightarrow>
                                    Inr (calls @
                                      [AssumeRole (row_account_id email_cfg)
                                         (row_role_name email_cfg) (row_region email_cfg),
                                       PutOutcomeRows ''mmpatching-custom-patchbaseline-dev''
                                         ''post_patch_notification/mw-post-patch-output.csv''
                                         post_patch_rows,
                                       SendEmail ''Post Patch Status Report''])))))))"

section \<open>Notions used to state the properties\<close>

text \<open>
  What a window's rules resolve to, written directly over the responses: the identifiers
  a tag query returns, in the order returned and with their repetitions; the members of a
  resource group that are EC2 instances; and, for the rules of one grouping, the sum of
  the explicit lists, the tag filters collected, the sum of the group counts and the
  queries issued.
\<close>

definition returned_ids :: "reservation list list \<Rightarrow> string list" where
  "returned_ids pages = map InstanceId (concat (map Instances (concat pages)))"

definition ec2_members :: "resourcegroups_client \<Rightarrow> string \<Rightarrow> resource list" where
  "ec2_members resourcegroups group_name =
     filter (\<lambda>resource. ResourceType resource = ''AWS::EC2::Instance'')
            (concat (list_group_resources resourcegroups group_name))"

definition explicit_total :: "rule list \<Rightarrow> nat" where
  "explicit_total rules =
     sum_list (map (\<lambda>rule. length (Values rule))
                   (filter (\<lambda>rule. Key rule = ''InstanceIds'') rules))"

definition tag_filters_of :: "rule list \<Rightarrow> tag_filter list" where
  "tag_filters_of rules =
     map (\<lambda>rule. \<lparr>filter_Name = ''tag:'' @ split (Key rule) ''tag:'' ! 1,
                  filter_Values = Values rule\<rparr>)
         (filter (\<lambda>rule. startswith (Key rule) ''tag:'') rules)"

definition group_total :: "resourcegroups_client \<Rightarrow> rule list \<Rightarrow> nat" where
  "group_total resourcegroups rules =
     sum_list (map (\<lambda>rule. sum_list (map (\<lambda>g. length (ec2_members resourcegroups g))
                                        (Values rule)))
                   (filter (\<lambda>rule. Key rule = ''resource-groups:Name'') rules))"

definition group_calls :: "rule list \<Rightarrow> api_call list" where
  "group_calls rules =
     concat (map (\<lambda>rule. map ListGroupResources (Values rule))
                 (filter (\<lambda>rule. Key rule = ''resource-groups:Name'') rules))"

definition group_names :: "rule list \<Rightarrow> string list" where
  "group_names rules =
     concat (map Values (filter (\<lambda>rule. Key rule = ''resource-groups:Name'') rules))"

definition tag_total :: "ec2_client \<Rightarrow> rule list \<Rightarrow> nat" where
  "tag_total ec2 rules =
     (if tag_filters_of rules = [] then 0
      else card (set (returned_ids (describe_instances ec2 (tag_filters_of rules)))))"

definition tag_calls :: "rule list \<Rightarrow> api_call list" where
  "tag_calls rules =
     (if tag_filters_of rules = [] then [] else [DescribeInstances (tag_filters_of rules)])"

definition grouping_count :: "ec2_client \<Rightarrow> resourcegroups_client \<Rightarrow> mw_target \<Rightarrow> nat" where
  "grouping_count ec2 resourcegroups mw_target =
     explicit_total (rules_of mw_target) + group_total resourcegroups (rules_of mw_target)
       + tag_total ec2 (rules_of mw_target)"

definition grouping_calls :: "mw_target \<Rightarrow> api_call list" where
  "grouping_calls mw_target = group_calls (rules_of mw_target) @ tag_calls (rules_of mw_target)"

text \<open>The midnight at or before a clock reading, in microseconds.\<close>

definition start_of_day :: "int \<Rightarrow> int" where
  "start_of_day now = now - now mod day_micros"

text \<open>
  The queries that inspect one execution after its tasks were listed (an invocation page
  of that execution, or the per-host results of a command); a loop state whose queries
  extend a given list by such queries only; the calls to the credential broker in a list
  of queries; and a slot of the session cache that holds a session under the three keys
  of a row.
\<close>

fun inspects :: "string \<Rightarrow> api_call \<Rightarrow> bool" where
  "inspects execution_id (DescribeMaintenanceWindowExecutionTaskInvocations x task_id)
     = (x = execution_id)"
| "inspects execution_id (ListCommandInvocations command_id) = True"
| "inspects execution_id _ = False"

definition extends :: "string \<Rightarrow> api_call list \<Rightarrow> nat \<times> nat \<times> api_call list \<Rightarrow> bool" where
  "extends execution_id calls st =
     (\<exists>added. snd (snd st) = calls @ added \<and> list_all (inspects execution_id) added)"

fun is_assume_role :: "api_call \<Rightarrow> bool" where
  "is_assume_role (AssumeRole account_id role_name region) = True"
| "is_assume_role _ = False"

definition assume_role_calls :: "api_call list \<Rightarrow> nat" where
  "assume_role_calls calls = length (filter is_assume_role calls)"

definition cache_hit :: "session_cache \<Rightarrow> string \<Rightarrow> string \<Rightarrow> string \<Rightarrow> bool" where
  "cache_hit cache account_id role_name region =
     (cached_session cache \<noteq> None \<and> cached_account_id cache = Some account_id
      \<and> cached_role_name cache = Some role_name \<and> cached_region cache = Some region)"

text \<open>
  The queries of the pre-run loop for a list of accounts: a broker call for one of the
  accounts, and the listings of windows, targets, group members and instances. A write of
  rows to the bucket, a read from it and a report are not among them.
\<close>

fun pre_run_query :: "account_row list \<Rightarrow> api_call \<Rightarrow> bool" where
  "pre_run_query accounts (AssumeRole account_id role_name region) =
     list_ex (\<lambda>row. row_account_id row = account_id \<and> row_role_name row = role_name
                     \<and> row_region row = region) accounts"
| "pre_run_query accounts DescribeMaintenanceWindows = True"
| "pre_run_query accounts (DescribeMaintenanceWindowTargets window_id) = True"
| "pre_run_query accounts (ListGroupResources group_name) = True"
| "pre_run_query accounts (DescribeInstances filters) = True"
| "pre_run_query accounts _ = False"

section \<open>Example responses\<close>

text \<open>
  Concrete clients, payloads and rows on which the properties are evaluated. \<open>ex_loads\<close>
  stands for \<open>json.loads\<close> on the strings of the examples: the Install payload parses to
  its dictionary and the other strings used are not JSON. \<open>ex_deep_loads\<close> is the same
  with the answer of \<open>json.loads\<close> on \<open>deep_payload\<close>, brackets nested deeper than the
  interpreter's recursion limit.
\<close>

definition no_ssm :: ssm_client where
  "no_ssm = \<lparr>describe_maintenance_windows = [],
             describe_maintenance_window_targets = (\<lambda>window_id. []),
             describe_maintenance_window_executions = (\<lambda>window_id. []),
             describe_maintenance_window_execution_tasks = (\<lambda>execution_id. []),
             describe_maintenance_window_execution_task_invocations =
               (\<lambda>execution_id task_id. []),
             list_command_invocations = (\<lambda>command_id. [])\<rparr>"

definition ex_resourcegroups :: resourcegroups_client where
  "ex_resourcegroups = \<lparr>list_group_resources = (\<lambda>group_name.
     if group_name = ''patch-group'' then
       [[\<lparr>ResourceType = ''AWS::EC2::Instance'',
          ResourceArn = ''arn:aws:ec2:us-east-1:111111111111:instance/i-0a''\<rparr>,
         \<lparr>ResourceType = ''AWS::RDS::DBInstance'',
          ResourceArn = ''arn:aws:rds:us-east-1:111111111111:db:orders''\<rparr>]]
     else if group_name = ''web-group'' then
       [[\<lparr>ResourceType = ''AWS::EC2::Instance'',
          ResourceArn = ''arn:aws:ec2:us-east-1:111111111111:instance/i-0a''\<rparr>,
         \<lparr>ResourceType = ''AWS::EC2::Instance'',
          ResourceArn = ''arn:aws:ec2:us-east-1:111111111111:instance/i-0b''\<rparr>],
        [\<lparr>ResourceType = ''AWS::EC2::Instance'',
          ResourceArn = ''arn:aws:ec2:us-east-1:111111111111:instance/i-0a''\<rparr>]]
     else [])\<rparr>"

definition ex_ec2 :: ec2_client where
  "ex_ec2 = \<lparr>describe_instances = (\<lambda>filters.
     if filters = [\<lparr>filter_Name = ''tag:Patch'', filter_Values = [''yes'']\<rparr>] then
       [[\<lparr>Instances = [\<lparr>InstanceId = ''i-0a''\<rparr>]\<rparr>]]
     else if filters = [\<lparr>filter_Name = ''tag:Patch'', filter_Values = [''yes'']\<rparr>,
                        \<lparr>filter_Name = ''tag:Env'', filter_Values = [''prod'']\<rparr>] then
       [[\<lparr>Instances = [\<lparr>InstanceId = ''i-0a''\<rparr>, \<lparr>InstanceId = ''i-0b''\<rparr>]\<rparr>],
        [\<lparr>Instances = [\<lparr>InstanceId = ''i-0a''\<rparr>]\<rparr>]]
     else [])\<rparr>"

definition ex_explicit_targets :: "mw_target list" where
  "ex_explicit_targets =
     [\<lparr>Targets = Some [\<lparr>Key = ''InstanceIds'', Values = [''i-01'', ''i-02'', ''i-03'']\<rparr>]\<rparr>,
      \<lparr>Targets = Some [\<lparr>Key = ''InstanceIds'', Values = [''i-04'']\<rparr>,
                       \<lparr>Key = ''InstanceIds'', Values = [''i-01'', ''i-05'']\<rparr>]\<rparr>,
      \<lparr>Targets = None\<rparr>]"

definition ex_group_rule :: rule where
  "ex_group_rule = \<lparr>Key = ''resource-groups:Name'', Values = [''patch-group'']\<rparr>"

definition ex_two_groups_rule :: rule where
  "ex_two_groups_rule =
     \<lparr>Key = ''resource-groups:Name'', Values = [''web-group'', ''patch-group'']\<rparr>"

definition ex_tag_rule :: rule where
  "ex_tag_rule = \<lparr>Key = ''tag:Patch'', Values = [''yes'']\<rparr>"

definition ex_tag_rule2 :: rule where
  "ex_tag_rule2 = \<lparr>Key = ''tag:Env'', Values = [''prod'']\<rparr>"

definition quoted :: "string \<Rightarrow> string" where
  "quoted s = CHR 0x22 # s @ [CHR 0x22]"

definition install_payload :: string where
  "install_payload =
     ''{'' @ quoted ''parameters'' @ '': {'' @ quoted ''Operation'' @ '': [''
       @ quoted ''Install'' @ '']}}''"

definition ex_loads :: "string \<Rightarrow> py_error + pyval" where
  "ex_loads s =
     (if s = install_payload then
        Inr (PDict [(''parameters'', PDict [(''Operation'', PList [PStr ''Install''])])])
      else if s = ''[1, 2]'' then Inr (PList [PNumber 1, PNumber 2])
      else Inl JSONDecodeError)"

definition ex_statuses :: "command_invocation list list" where
  "ex_statuses =
     [[\<lparr>Status = Some ''Success'', cmd_InstanceId = Some ''i-01''\<rparr>,
       \<lparr>Status = Some ''Success'', cmd_InstanceId = Some ''i-02''\<rparr>,
       \<lparr>Status = Some ''Failed'', cmd_InstanceId = Some ''i-03''\<rparr>],
      [\<lparr>Status = Some ''InProgress'', cmd_InstanceId = Some ''i-04''\<rparr>,
       \<lparr>Status = Some ''Success'', cmd_InstanceId = Some ''i-05''\<rparr>]]"

definition ex_patch_ssm :: ssm_client where
  "ex_patch_ssm = no_ssm
     \<lparr>describe_maintenance_window_executions := (\<lambda>window_id.
        if window_id = ''mw-0c50858d01EXAMPLE'' then
          [\<lparr>WindowExecutionId = ''exec-1'', StartTime = 1793750400000000\<rparr>]
        else []),
      describe_maintenance_window_execution_tasks := (\<lambda>execution_id.
        if execution_id = ''exec-1'' then
          [\<lparr>TaskArn = Some ''AWS-RunPatchBaseline'', TaskExecutionId = ''task-1''\<rparr>]
        else []),
      describe_maintenance_window_execution_task_invocations := (\<lambda>execution_id task_id.
        if execution_id = ''exec-1'' \<and> task_id = ''task-1'' then
          [[\<lparr>Parameters = Some (PStr install_payload), ExecutionId = Some ''cmd-1''\<rparr>]]
        else []),
      list_command_invocations := (\<lambda>command_id.
        if command_id = ''cmd-1'' then ex_statuses else [])\<rparr>"

definition ex_history_ssm :: ssm_client where
  "ex_history_ssm = no_ssm
     \<lparr>describe_maintenance_window_executions := (\<lambda>window_id.
        if window_id = ''mw-0c50858d01EXAMPLE'' then
          [\<lparr>WindowExecutionId = ''exec-0'', StartTime = 1793664000000000\<rparr>,
           \<lparr>WindowExecutionId = ''exec-1'', StartTime = 1793750400000000\<rparr>,
           \<lparr>WindowExecutionId = ''exec-2'', StartTime = 1793750400000000\<rparr>]
        else []),
      describe_maintenance_window_execution_tasks := (\<lambda>execution_id.
        if execution_id = ''exec-1'' then
          [\<lparr>TaskArn = Some ''AWS-RunPatchBaseline'', TaskExecutionId = ''task-1''\<rparr>]
        else [\<lparr>TaskArn = Some ''AWS-RunPatchBaseline'', TaskExecutionId = ''task-9''\<rparr>]),
      describe_maintenance_window_execution_task_invocations := (\<lambda>execution_id task_id.
        if execution_id = ''exec-1'' \<and> task_id = ''task-1'' then
          [[\<lparr>Parameters = Some (PStr install_payload), ExecutionId = Some ''cmd-1''\<rparr>]]
        else [[\<lparr>Parameters = Some (PStr install_payload), ExecutionId = Some ''cmd-9''\<rparr>]]),
      list_command_invocations := (\<lambda>command_id.
        if command_id = ''cmd-1'' then ex_statuses
        else [[\<lparr>Status = Some ''Failed'', cmd_InstanceId = Some ''i-09''\<rparr>]])\<rparr>"

definition ex_pre_ssm :: ssm_client where
  "ex_pre_ssm = ex_history_ssm
     \<lparr>describe_maintenance_windows :=
        [\<lparr>WindowId = ''mw-0c50858d01EXAMPLE'', Name = Some ''mmpatching-prod'',
          NextExecutionTime =
            Some (TimeDatetime \<lparr>wall = 1793790000000000, tzinfo = Some 0\<rparr>)\<rparr>,
         \<lparr>WindowId = ''mw-0a1b2c3d4eEXAMPLE'', Name = Some ''backup-nightly'',
          NextExecutionTime =
            Some (TimeDatetime \<lparr>wall = 1793790000000000, tzinfo = Some 0\<rparr>)\<rparr>],
      describe_maintenance_window_targets := (\<lambda>window_id. ex_explicit_targets)\<rparr>"

definition ex_session :: session where
  "ex_session = \<lparr>client_ssm = ex_pre_ssm, client_ec2 = ex_ec2,
                  client_resourcegroups = ex_resourcegroups\<rparr>"

definition ex_account :: account_row where
  "ex_account = \<lparr>row_account_id = ''111111111111'', row_role_name = ''PatchAudit'',
                  row_region = ''us-east-1''\<rparr>"

definition ex_denied_account :: account_row where
  "ex_denied_account = \<lparr>row_account_id = ''333333333333'', row_role_name = ''PatchAudit'',
                         row_region = ''us-east-1''\<rparr>"

definition ex_world :: world where
  "ex_world =
     \<lparr>sts_assume_role = (\<lambda>role_arn session_name.
        if role_arn = ''arn:aws:iam::111111111111:role/PatchAudit''
        then Inr \<lparr>AccessKeyId = ''ASIAEXAMPLE'', SecretAccessKey = ''secret'',
                  SessionToken = ''token''\<rparr>
        else Inl ClientError),
      boto3_Session = (\<lambda>creds region. ex_session),
      json_loads = ex_loads,
      fromisoformat = (\<lambda>s. Inl ValueError),
      utc_now = 1793788200000000,
      accounts_csv = [ex_denied_account, ex_account],
      email_account_csv = [ex_account],
      staged_rows = []\<rparr>"

definition ex_cache :: session_cache where
  "ex_cache = \<lparr>cached_session = Some ex_session, cached_account_id = Some ''111111111111'',
                cached_role_name = Some ''PatchAudit'', cached_region = Some ''us-east-1''\<rparr>"

definition ex_forecast_row :: "nat window_row" where
  "ex_forecast_row =
     \<lparr>AccountId = ''111111111111'', Region = ''us-east-1'', RoleName = ''PatchAudit'',
      MaintenanceWindowId = ''mw-0c50858d01EXAMPLE'',
      MaintenanceWindowName = ''mmpatching-prod'', TargetInstanceCount = 6\<rparr>"

definition ex_account_calls :: "api_call list" where
  "ex_account_calls =
     [AssumeRole ''111111111111'' ''PatchAudit'' ''us-east-1'', DescribeMaintenanceWindows,
      DescribeMaintenanceWindowTargets ''mw-0c50858d01EXAMPLE'']"

definition deep_payload :: string where
  "deep_payload = replicate 1100 (CHR ''['') @ replicate 1100 (CHR '']'') @ ''x''"

definition ex_deep_loads :: "string \<Rightarrow> py_error + pyval" where
  "ex_deep_loads s = (if s = deep_payload then Inl RecursionError else ex_loads s)"

definition ex_deep_ssm :: ssm_client where
  "ex_deep_ssm = ex_patch_ssm
     \<lparr>describe_maintenance_window_execution_task_invocations := (\<lambda>execution_id task_id.
        if execution_id = ''exec-1'' \<and> task_id = ''task-1'' then
          [[\<lparr>Parameters = Some (PStr deep_payload), ExecutionId = Some ''cmd-1''\<rparr>]]
        else [])\<rparr>"

section \<open>Properties of the Target Resolver\<close>

lemma fold_count_filter:
  "fold (\<lambda>x (n::nat). if P x then n + 1 else n) xs n = n + length (filter P xs)"
  by (induction xs arbitrary: n) auto

lemma fold_pages_count:
  "fold (\<lambda>page (n::nat). fold (\<lambda>x n. if P x then n + 1 else n) page n) pages n
     = n + length (filter P (concat pages))"
  by (induction pages arbitrary: n) (auto simp: fold_count_filter)

lemma group_resource_count_members:
  "group_resource_count resourcegroups g = length (ec2_members resourcegroups g)"
  by (simp add: group_resource_count_def ec2_members_def fold_pages_count)

lemma fold_insert_ids:
  "fold (\<lambda>inst ids. insert (InstanceId inst) ids) xs A = A \<union> set (map InstanceId xs)"
  by (induction xs arbitrary: A) auto

lemma fold_reservations_ids:
  "fold (\<lambda>reservation ids. fold (\<lambda>inst ids. insert (InstanceId inst) ids)
                               (Instances reservation) ids) rs A
     = A \<union> set (map InstanceId (concat (map Instances rs)))"
  by (induction rs arbitrary: A) (auto simp: fold_insert_ids)

lemma fold_pages_ids:
  "fold (\<lambda>page ids. fold (\<lambda>reservation ids. fold (\<lambda>inst ids. insert (InstanceId inst) ids)
                               (Instances reservation) ids) page ids) pages A
     = A \<union> set (returned_ids pages)"
  by (induction pages arbitrary: A) (auto simp: fold_reservations_ids returned_ids_def)

lemma collect_instance_ids_set: "collect_instance_ids pages = set (returned_ids pages)"
  by (simp add: collect_instance_ids_def fold_pages_ids)

text \<open>
  The index 1 that \<open>rule_step\<close> reads from the split of a key is in range whenever
  the key starts with \<open>tag:\<close>.
\<close>

lemma split_from_nonempty: "split_from sep cur s \<noteq> []"
proof (induction sep cur s rule: split_from.induct)
  case (1 sep cur s)
  then show ?case by (subst split_from.simps) simp
qed

lemma startswith_tag_split:
  assumes "startswith key ''tag:''"
  shows "1 < length (split key ''tag:'')"
proof -
  from assms have "key \<noteq> []" by (auto simp: startswith_def)
  with assms have "split key ''tag:'' = [] # split_from ''tag:'' [] (drop (length ''tag:'') key)"
    unfolding split_def by (subst split_from.simps) simp
  with split_from_nonempty [of "''tag:''" "[]" "drop (length ''tag:'') key"] show ?thesis
    by (cases "split_from ''tag:'' [] (drop (length ''tag:'') key)") auto
qed

lemma split_example: "split ''tag:Name'' ''tag:'' = [[], ''Name'']"
  by (simp add: split_def startswith_def split_from.simps)

lemma fold_groups:
  "fold (\<lambda>group_name (total, calls).
           (total + group_resource_count resourcegroups group_name,
            calls @ [ListGroupResources group_name])) gs (n, calls)
     = (n + sum_list (map (\<lambda>g. length (ec2_members resourcegroups g)) gs),
        calls @ map ListGroupResources gs)"
  by (induction gs arbitrary: n calls) (auto simp: group_resource_count_members)

lemma not_tag_keys:
  "\<not> startswith ''InstanceIds'' ''tag:''" "\<not> startswith ''resource-groups:Name'' ''tag:''"
  by (simp_all add: startswith_def)

lemma rule_step_explicit:
  "Key rule = ''InstanceIds'' \<Longrightarrow>
   rule_step resourcegroups rule (n, tfs, calls) = (n + length (Values rule), tfs, calls)"
  by (simp add: rule_step_def)

lemma rule_step_tag:
  "startswith (Key rule) ''tag:'' \<Longrightarrow>
   rule_step resourcegroups rule (n, tfs, calls)
     = (n, tfs @ [\<lparr>filter_Name = ''tag:'' @ split (Key rule) ''tag:'' ! 1,
                       filter_Values = Values rule\<rparr>], calls)"
  using not_tag_keys by (auto simp: rule_step_def Let_def)

lemma rule_step_group:
  "Key rule = ''resource-groups:Name'' \<Longrightarrow>
   rule_step resourcegroups rule (n, tfs, calls)
     = (n + sum_list (map (\<lambda>g. length (ec2_members resourcegroups g)) (Values rule)),
        tfs, calls @ map ListGroupResources (Values rule))"
  using not_tag_keys by (simp add: rule_step_def Let_def fold_groups)

lemma rule_step_other:
  "Key rule \<noteq> ''InstanceIds'' \<Longrightarrow> \<not> startswith (Key rule) ''tag:'' \<Longrightarrow>
   Key rule \<noteq> ''resource-groups:Name'' \<Longrightarrow>
   rule_step resourcegroups rule (n, tfs, calls) = (n, tfs, calls)"
  by (simp add: rule_step_def)

lemma fold_rule_step:
  "fold (rule_step resourcegroups) rules (n, tfs, calls)
     = (n + explicit_total rules + group_total resourcegroups rules,
        tfs @ tag_filters_of rules, calls @ group_calls rules)"
proof (induction rules arbitrary: n tfs calls)
  case Nil
  show ?case by (simp add: explicit_total_def group_total_def tag_filters_of_def group_calls_def)
next
  case (Cons rule rules)
  consider (e) "Key rule = ''InstanceIds''" | (t) "startswith (Key rule) ''tag:''"
    | (g) "Key rule = ''resource-groups:Name''"
    | (o) "Key rule \<noteq> ''InstanceIds''" "\<not> startswith (Key rule) ''tag:''"
          "Key rule \<noteq> ''resource-groups:Name''"
    by blast
  then show ?case
  proof cases
    case e
    with not_tag_keys show ?thesis
      by (simp add: rule_step_explicit Cons.IH explicit_total_def group_total_def
            tag_filters_of_def group_calls_def)
  next
    case t
    with not_tag_keys have "Key rule \<noteq> ''InstanceIds''" "Key rule \<noteq> ''resource-groups:Name''"
      by auto
    with t show ?thesis
      by (simp add: rule_step_tag Cons.IH explicit_total_def group_total_def
            tag_filters_of_def group_calls_def)
  next
    case g
    with not_tag_keys show ?thesis
      by (simp add: rule_step_group Cons.IH explicit_total_def group_total_def
            tag_filters_of_def group_calls_def)
  next
    case o
    then show ?thesis
      by (simp add: rule_step_other Cons.IH explicit_total_def group_total_def
            tag_filters_of_def group_calls_def)
  qed
qed

lemma target_step_eq:
  "target_step ec2 resourcegroups mw_target (n, calls)
     = (n + grouping_count ec2 resourcegroups mw_target, calls @ grouping_calls mw_target)"
  by (simp add: target_step_def fold_rule_step collect_instance_ids_set grouping_count_def
        grouping_calls_def tag_total_def tag_calls_def)

lemma fold_target_step:
  "fold (target_step ec2 resourcegroups) ts (n, calls)
     = (n + sum_list (map (grouping_count ec2 resourcegroups) ts),
        calls @ concat (map grouping_calls ts))"
  by (induction ts arbitrary: n calls) (simp_all add: target_step_eq)

lemma get_target_count_eq:
  "get_target_count ssm ec2 resourcegroups window_id calls
     = (sum_list (map (grouping_count ec2 resourcegroups)
                      (describe_maintenance_window_targets ssm window_id)),
        calls @ [DescribeMaintenanceWindowTargets window_id]
          @ concat (map grouping_calls (describe_maintenance_window_targets ssm window_id)))"
  by (simp add: get_target_count_def fold_target_step)

lemma all_explicit:
  assumes "\<forall>rule \<in> set rules. Key rule = ''InstanceIds''"
  shows "explicit_total rules = sum_list (map (\<lambda>rule. length (Values rule)) rules)"
    and "group_total resourcegroups rules = 0"
    and "tag_filters_of rules = []"
    and "group_calls rules = []"
proof -
  from assms have f1: "filter (\<lambda>rule. Key rule = ''InstanceIds'') rules = rules"
    by (simp add: filter_id_conv)
  from assms have f2: "filter (\<lambda>rule. Key rule = ''resource-groups:Name'') rules = []"
    by (auto simp: filter_empty_conv)
  from assms not_tag_keys have f3: "filter (\<lambda>rule. startswith (Key rule) ''tag:'') rules = []"
    by (auto simp: filter_empty_conv)
  show "explicit_total rules = sum_list (map (\<lambda>rule. length (Values rule)) rules)"
    by (simp add: explicit_total_def f1)
  show "group_total resourcegroups rules = 0" by (simp add: group_total_def f2)
  show "tag_filters_of rules = []" by (simp add: tag_filters_of_def f3)
  show "group_calls rules = []" by (simp add: group_calls_def f2)
qed

text \<open>
  C4. When every rule of every grouping of a window is an explicit list (key
  \<open>InstanceIds\<close>), \<open>get_target_count\<close> returns the sum of the lengths of the lists, and
  the only query it issues is the listing of the window's targets: no resource group and
  no instance listing is asked for.
\<close>

theorem explicit_ids_sum_without_query:
  assumes "\<forall>mw_target \<in> set (describe_maintenance_window_targets ssm window_id).
             \<forall>rule \<in> set (rules_of mw_target). Key rule = ''InstanceIds''"
  shows "get_target_count ssm ec2 resourcegroups window_id calls
           = (sum_list (map (\<lambda>mw_target.
                               sum_list (map (\<lambda>rule. length (Values rule)) (rules_of mw_target)))
                            (describe_maintenance_window_targets ssm window_id)),
              calls @ [DescribeMaintenanceWindowTargets window_id])"
proof -
  let ?ts = "describe_maintenance_window_targets ssm window_id"
  have c: "grouping_count ec2 resourcegroups t
             = sum_list (map (\<lambda>rule. length (Values rule)) (rules_of t))"
    and e: "grouping_calls t = []" if "t \<in> set ?ts" for t
  proof -
    from that assms have r: "\<forall>rule \<in> set (rules_of t). Key rule = ''InstanceIds''"
      by blast
    show "grouping_count ec2 resourcegroups t
            = sum_list (map (\<lambda>rule. length (Values rule)) (rules_of t))"
      by (simp add: grouping_count_def tag_total_def all_explicit [OF r])
    show "grouping_calls t = []"
      by (simp add: grouping_calls_def tag_calls_def all_explicit [OF r])
  qed
  have m: "map (grouping_count ec2 resourcegroups) ?ts
             = map (\<lambda>t. sum_list (map (\<lambda>rule. length (Values rule)) (rules_of t))) ?ts"
    by (rule map_cong) (simp_all add: c)
  from e have k: "concat (map grouping_calls ?ts) = []" by simp
  show ?thesis unfolding get_target_count_eq m k by simp
qed

theorem explicit_ids_sum_without_query_witness:
  "get_target_count (no_ssm\<lparr>describe_maintenance_window_targets := (\<lambda>w. ex_explicit_targets)\<rparr>)
     ex_ec2 ex_resourcegroups ''mw-0c50858d01EXAMPLE'' []
   = (6, [DescribeMaintenanceWindowTargets ''mw-0c50858d01EXAMPLE''])"
proof -
  have h: "\<forall>mw_target \<in> set (describe_maintenance_window_targets
                 (no_ssm\<lparr>describe_maintenance_window_targets := (\<lambda>w. ex_explicit_targets)\<rparr>)
                 ''mw-0c50858d01EXAMPLE'').
             \<forall>rule \<in> set (rules_of mw_target). Key rule = ''InstanceIds''"
    by (simp add: ex_explicit_targets_def rules_of_def)
  show ?thesis
    using explicit_ids_sum_without_query [OF h, of ex_ec2 ex_resourcegroups "[]"]
    by (simp add: ex_explicit_targets_def rules_of_def)
qed

lemma tag_filters_of_append:
  "tag_filters_of (rs @ rs') = tag_filters_of rs @ tag_filters_of rs'"
  by (simp add: tag_filters_of_def)

lemma group_rule_anywhere:
  assumes "Key group_rule = ''resource-groups:Name''"
  shows "explicit_total (rs1 @ group_rule # rs2) = explicit_total (rs1 @ rs2)"
    and "tag_filters_of (rs1 @ group_rule # rs2) = tag_filters_of (rs1 @ rs2)"
    and "group_total resourcegroups (rs1 @ group_rule # rs2)
           = group_total resourcegroups (rs1 @ rs2)
             + sum_list (map (\<lambda>g. length (ec2_members resourcegroups g)) (Values group_rule))"
  using assms not_tag_keys
  by (simp_all add: explicit_total_def tag_filters_of_def group_total_def)

lemma group_rule_adds_members:
  assumes "Key group_rule = ''resource-groups:Name''"
  shows "grouping_count ec2 resourcegroups \<lparr>Targets = Some (rs1 @ group_rule # rs2)\<rparr>
           = grouping_count ec2 resourcegroups \<lparr>Targets = Some (rs1 @ rs2)\<rparr>
             + sum_list (map (\<lambda>g. length (ec2_members resourcegroups g)) (Values group_rule))"
  by (simp add: grouping_count_def rules_of_def tag_total_def group_rule_anywhere [OF assms])

lemma two_rule_grouping_count:
  assumes rules: "rules_of t = [group_rule, tag_rule] \<or> rules_of t = [tag_rule, group_rule]"
    and gkey: "Key group_rule = ''resource-groups:Name''"
    and gval: "Values group_rule = [g]"
    and tkey: "startswith (Key tag_rule) ''tag:''"
    and member: "ec2_members resourcegroups g = [r]"
    and tagged: "set (returned_ids (describe_instances ec2 (tag_filters_of [tag_rule]))) = {h}"
  shows "grouping_count ec2 resourcegroups t = 2"
proof -
  from tkey not_tag_keys have tk: "Key tag_rule \<noteq> ''InstanceIds''"
    "Key tag_rule \<noteq> ''resource-groups:Name''" by auto
  have tf: "tag_filters_of (rules_of t) = tag_filters_of [tag_rule]"
    using rules gkey tkey not_tag_keys by (auto simp: tag_filters_of_def)
  have "tag_filters_of [tag_rule] \<noteq> []" using tkey by (simp add: tag_filters_of_def)
  with tf tagged have tt: "tag_total ec2 (rules_of t) = 1" by (simp add: tag_total_def)
  have gt: "group_total resourcegroups (rules_of t) = 1"
    using rules gkey gval member tk by (auto simp: group_total_def)
  have et: "explicit_total (rules_of t) = 0"
    using rules gkey tk by (auto simp: explicit_total_def)
  from tt gt et show ?thesis by (simp add: grouping_count_def)
qed

lemma group_total_names:
  "group_total resourcegroups rules
     = sum_list (map (\<lambda>g. length (ec2_members resourcegroups g)) (group_names rules))"
  by (induction rules) (simp_all add: group_total_def group_names_def)

lemma sum_list_bump:
  fixes f f' :: "'a \<Rightarrow> nat"
  assumes "\<And>x. f' x = f x + (if x = g then 1 else 0)"
  shows "sum_list (map f' xs) = sum_list (map f xs) + count_list xs g"
  by (induction xs) (simp_all add: assms)

lemma ec2_members_added:
  assumes "ResourceType r = ''AWS::EC2::Instance''"
  shows "length (ec2_members
                   (resourcegroups\<lparr>list_group_resources :=
                      (list_group_resources resourcegroups)
                        (g := list_group_resources resourcegroups g @ [[r]])\<rparr>) g')
           = length (ec2_members resourcegroups g') + (if g' = g then 1 else 0)"
  using assms by (simp add: ec2_members_def)

lemma returned_ids_added:
  "returned_ids (pages @ [[\<lparr>Instances = [\<lparr>InstanceId = h\<rparr>]\<rparr>]]) = returned_ids pages @ [h]"
  by (simp add: returned_ids_def)

lemma host_added_to_group_and_tag_answer:
  assumes tags: "tag_filters_of (rules_of t) \<noteq> []"
    and once: "count_list (group_names (rules_of t)) g = 1"
    and ec2r: "ResourceType r = ''AWS::EC2::Instance''"
    and fresh: "h \<notin> set (returned_ids (describe_instances ec2 (tag_filters_of (rules_of t))))"
  shows "grouping_count
           (ec2\<lparr>describe_instances :=
              (describe_instances ec2)
                (tag_filters_of (rules_of t) :=
                   describe_instances ec2 (tag_filters_of (rules_of t))
                     @ [[\<lparr>Instances = [\<lparr>InstanceId = h\<rparr>]\<rparr>]])\<rparr>)
           (resourcegroups\<lparr>list_group_resources :=
              (list_group_resources resourcegroups)
                (g := list_group_resources resourcegroups g @ [[r]])\<rparr>) t
         = grouping_count ec2 resourcegroups t + 2"
proof -
  let ?rg' = "resourcegroups\<lparr>list_group_resources :=
                (list_group_resources resourcegroups)
                  (g := list_group_resources resourcegroups g @ [[r]])\<rparr>"
  have "group_total ?rg' (rules_of t)
          = group_total resourcegroups (rules_of t) + count_list (group_names (rules_of t)) g"
    unfolding group_total_names
    by (rule sum_list_bump) (rule ec2_members_added [OF ec2r])
  with once have g: "group_total ?rg' (rules_of t) = group_total resourcegroups (rules_of t) + 1"
    by simp
  show ?thesis
    using tags fresh by (simp add: grouping_count_def tag_total_def g returned_ids_added)
qed

text \<open>
  C2. The count of a resource-group rule is added to the total where the rule stands,
  whatever the other rules of its grouping resolve to: a grouping with the rule has the
  total of the grouping without it plus the number of EC2 members of every group the rule
  names, each member counted as often as it is listed; the same holds of the total of the
  window. A grouping that carries one resource-group rule and one tag rule, both resolving
  to one host, adds 2 to the total of the window. And a host that is added both to a
  group that the grouping names once and to the answer of the grouping's tag query, which
  did not return it before, raises the total of the grouping by 2, whatever else the
  grouping lists.
\<close>

theorem resource_group_and_tag_filter_double_count:
  assumes gkey: "Key group_rule = ''resource-groups:Name''"
  shows "fst (target_step ec2 resourcegroups \<lparr>Targets = Some (rs1 @ [group_rule] @ rs2)\<rparr>
                (n, calls))
           = fst (target_step ec2 resourcegroups \<lparr>Targets = Some (rs1 @ rs2)\<rparr> (n, calls))
             + sum_list (map (\<lambda>g. length (ec2_members resourcegroups g)) (Values group_rule))
         \<and> (describe_maintenance_window_targets ssm window_id
               = pre @ [\<lparr>Targets = Some (rs1 @ [group_rule] @ rs2)\<rparr>] @ post
             \<longrightarrow> fst (get_target_count ssm ec2 resourcegroups window_id calls)
                 = fst (get_target_count
                          (ssm\<lparr>describe_maintenance_window_targets :=
                                 (\<lambda>w. pre @ [\<lparr>Targets = Some (rs1 @ rs2)\<rparr>] @ post)\<rparr>)
                          ec2 resourcegroups window_id calls)
                   + sum_list (map (\<lambda>g. length (ec2_members resourcegroups g))
                                   (Values group_rule)))
         \<and> (describe_maintenance_window_targets ssm window_id = pre @ [t] @ post
             \<and> (rules_of t = [group_rule, tag_rule] \<or> rules_of t = [tag_rule, group_rule])
             \<and> Values group_rule = [g] \<and> startswith (Key tag_rule) ''tag:''
             \<and> ec2_members resourcegroups g = [r]
             \<and> set (returned_ids (describe_instances ec2 (tag_filters_of [tag_rule]))) = {h}
             \<longrightarrow> fst (get_target_count ssm ec2 resourcegroups window_id calls)
                 = fst (get_target_count
                          (ssm\<lparr>describe_maintenance_window_targets := (\<lambda>w. pre @ post)\<rparr>)
                          ec2 resourcegroups window_id calls) + 2)
         \<and> (tag_filters_of (rules_of t') \<noteq> []
             \<and> count_list (group_names (rules_of t')) g' = 1
             \<and> ResourceType r' = ''AWS::EC2::Instance''
             \<and> h' \<notin> set (returned_ids (describe_instances ec2 (tag_filters_of (rules_of t'))))
             \<longrightarrow> fst (target_step
                        (ec2\<lparr>describe_instances :=
                           (describe_instances ec2)
                             (tag_filters_of (rules_of t') :=
                                describe_instances ec2 (tag_filters_of (rules_of t'))
                                  @ [[\<lparr>Instances = [\<lparr>InstanceId = h'\<rparr>]\<rparr>]])\<rparr>)
                        (resourcegroups\<lparr>list_group_resources :=
                           (list_group_resources resourcegroups)
                             (g' := list_group_resources resourcegroups g' @ [[r']])\<rparr>)
                        t' (n, calls))
                 = fst (target_step ec2 resourcegroups t' (n, calls)) + 2)"
proof (intro conjI impI)
  show "fst (target_step ec2 resourcegroups \<lparr>Targets = Some (rs1 @ [group_rule] @ rs2)\<rparr>
               (n, calls))
          = fst (target_step ec2 resourcegroups \<lparr>Targets = Some (rs1 @ rs2)\<rparr> (n, calls))
            + sum_list (map (\<lambda>g. length (ec2_members resourcegroups g)) (Values group_rule))"
    by (simp add: target_step_eq group_rule_adds_members [OF gkey])
next
  assume "describe_maintenance_window_targets ssm window_id
            = pre @ [\<lparr>Targets = Some (rs1 @ [group_rule] @ rs2)\<rparr>] @ post"
  then show "fst (get_target_count ssm ec2 resourcegroups window_id calls)
        = fst (get_target_count
                 (ssm\<lparr>describe_maintenance_window_targets :=
                        (\<lambda>w. pre @ [\<lparr>Targets = Some (rs1 @ rs2)\<rparr>] @ post)\<rparr>)
                 ec2 resourcegroups window_id calls)
          + sum_list (map (\<lambda>g. length (ec2_members resourcegroups g)) (Values group_rule))"
    by (simp add: get_target_count_eq group_rule_adds_members [OF gkey])
next
  assume a: "describe_maintenance_window_targets ssm window_id = pre @ [t] @ post
             \<and> (rules_of t = [group_rule, tag_rule] \<or> rules_of t = [tag_rule, group_rule])
             \<and> Values group_rule = [g] \<and> startswith (Key tag_rule) ''tag:''
             \<and> ec2_members resourcegroups g = [r]
             \<and> set (returned_ids (describe_instances ec2 (tag_filters_of [tag_rule]))) = {h}"
  then have "grouping_count ec2 resourcegroups t = 2"
    using two_rule_grouping_count [of t group_rule tag_rule g resourcegroups r ec2 h] gkey
    by blast
  with a show "fst (get_target_count ssm ec2 resourcegroups window_id calls)
        = fst (get_target_count
                 (ssm\<lparr>describe_maintenance_window_targets := (\<lambda>w. pre @ post)\<rparr>)
                 ec2 resourcegroups window_id calls) + 2"
    by (simp add: get_target_count_eq)
next
  assume "tag_filters_of (rules_of t') \<noteq> []
          \<and> count_list (group_names (rules_of t')) g' = 1
          \<and> ResourceType r' = ''AWS::EC2::Instance''
          \<and> h' \<notin> set (returned_ids (describe_instances ec2 (tag_filters_of (rules_of t'))))"
  then show "fst (target_step
               (ec2\<lparr>describe_instances :=
                  (describe_instances ec2)
                    (tag_filters_of (rules_of t') :=
                       describe_instances ec2 (tag_filters_of (rules_of t'))
                         @ [[\<lparr>Instances = [\<lparr>InstanceId = h'\<rparr>]\<rparr>]])\<rparr>)
               (resourcegroups\<lparr>list_group_resources :=
                  (list_group_resources resourcegroups)
                    (g' := list_group_resources resourcegroups g' @ [[r']])\<rparr>)
               t' (n, calls))
        = fst (target_step ec2 resourcegroups t' (n, calls)) + 2"
    by (simp add: target_step_eq host_added_to_group_and_tag_answer)
qed

theorem resource_group_and_tag_filter_double_count_witness:
  "fst (get_target_count
          (no_ssm\<lparr>describe_maintenance_window_targets :=
                     (\<lambda>w. [\<lparr>Targets = Some [ex_group_rule, ex_tag_rule]\<rparr>])\<rparr>)
          ex_ec2 ex_resourcegroups ''mw-0c50858d01EXAMPLE'' []) = 2
   \<and> fst (target_step ex_ec2 ex_resourcegroups
            \<lparr>Targets = Some ([\<lparr>Key = ''InstanceIds'', Values = [''i-0a'']\<rparr>, ex_tag_rule]
                              @ [ex_two_groups_rule] @ [])\<rparr> (0, [])) = 6
   \<and> fst (target_step
            (ex_ec2\<lparr>describe_instances :=
               (describe_instances ex_ec2)
                 ([\<lparr>filter_Name = ''tag:Patch'', filter_Values = [''yes'']\<rparr>] :=
                    describe_instances ex_ec2
                      [\<lparr>filter_Name = ''tag:Patch'', filter_Values = [''yes'']\<rparr>]
                      @ [[\<lparr>Instances = [\<lparr>InstanceId = ''i-0c''\<rparr>]\<rparr>]])\<rparr>)
            (ex_resourcegroups\<lparr>list_group_resources :=
               (list_group_resources ex_resourcegroups)
                 (''patch-group'' := list_group_resources ex_resourcegroups ''patch-group''
                    @ [[\<lparr>ResourceType = ''AWS::EC2::Instance'',
                         ResourceArn = ''arn:aws:ec2:us-east-1:111111111111:instance/i-0c''\<rparr>]])\<rparr>)
            \<lparr>Targets = Some [\<lparr>Key = ''InstanceIds'', Values = [''i-0c'']\<rparr>, ex_group_rule,
                             ex_tag_rule]\<rparr> (0, [])) = 5"
proof -
  let ?ssm = "no_ssm\<lparr>describe_maintenance_window_targets :=
                       (\<lambda>w. [\<lparr>Targets = Some [ex_group_rule, ex_tag_rule]\<rparr>])\<rparr>"
  let ?r = "\<lparr>ResourceType = ''AWS::EC2::Instance'',
             ResourceArn = ''arn:aws:ec2:us-east-1:111111111111:instance/i-0a''\<rparr>"
  let ?rc = "\<lparr>ResourceType = ''AWS::EC2::Instance'',
              ResourceArn = ''arn:aws:ec2:us-east-1:111111111111:instance/i-0c''\<rparr>"
  let ?e = "\<lparr>Key = ''InstanceIds'', Values = [''i-0a'']\<rparr>"
  let ?ec = "\<lparr>Key = ''InstanceIds'', Values = [''i-0c'']\<rparr>"
  let ?t' = "\<lparr>Targets = Some [?ec, ex_group_rule, ex_tag_rule]\<rparr>"
  let ?F = "[\<lparr>filter_Name = ''tag:Patch'', filter_Values = [''yes'']\<rparr>]"
  have gkey: "Key ex_group_rule = ''resource-groups:Name''" by (simp add: ex_group_rule_def)
  have gkey2: "Key ex_two_groups_rule = ''resource-groups:Name''"
    by (simp add: ex_two_groups_rule_def)
  have tagf: "tag_filters_of [ex_tag_rule] = ?F"
    by (simp add: tag_filters_of_def ex_tag_rule_def startswith_def split_def split_from.simps)
  have a: "fst (get_target_count ?ssm ex_ec2 ex_resourcegroups ''mw-0c50858d01EXAMPLE'' []) = 2"
  proof -
    have hyp: "describe_maintenance_window_targets ?ssm ''mw-0c50858d01EXAMPLE''
                 = [] @ [\<lparr>Targets = Some [ex_group_rule, ex_tag_rule]\<rparr>] @ []
               \<and> (rules_of \<lparr>Targets = Some [ex_group_rule, ex_tag_rule]\<rparr>
                     = [ex_group_rule, ex_tag_rule]
                   \<or> rules_of \<lparr>Targets = Some [ex_group_rule, ex_tag_rule]\<rparr>
                       = [ex_tag_rule, ex_group_rule])
               \<and> Values ex_group_rule = [''patch-group'']
               \<and> startswith (Key ex_tag_rule) ''tag:''
               \<and> ec2_members ex_resourcegroups ''patch-group'' = [?r]
               \<and> set (returned_ids (describe_instances ex_ec2 (tag_filters_of [ex_tag_rule])))
                   = {''i-0a''}"
      unfolding tagf
      by (simp add: rules_of_def ex_group_rule_def ex_tag_rule_def startswith_def
            ec2_members_def ex_resourcegroups_def ex_ec2_def returned_ids_def)
    have base: "fst (get_target_count
                       (?ssm\<lparr>describe_maintenance_window_targets := (\<lambda>w. [] @ [])\<rparr>)
                       ex_ec2 ex_resourcegroups ''mw-0c50858d01EXAMPLE'' []) = 0"
      by (simp add: get_target_count_def)
    from resource_group_and_tag_filter_double_count
           [OF gkey, where ssm = ?ssm and window_id = "''mw-0c50858d01EXAMPLE''"
              and pre = "[]" and post = "[]" and tag_rule = ex_tag_rule
              and t = "\<lparr>Targets = Some [ex_group_rule, ex_tag_rule]\<rparr>"
              and g = "''patch-group''" and r = ?r and h = "''i-0a''" and ?ec2.0 = ex_ec2
              and resourcegroups = ex_resourcegroups and calls = "[]"]
      hyp base
    show ?thesis by simp
  qed
  have b: "fst (target_step ex_ec2 ex_resourcegroups
                  \<lparr>Targets = Some ([?e, ex_tag_rule] @ [ex_two_groups_rule] @ [])\<rparr> (0, [])) = 6"
  proof -
    have members: "sum_list (map (\<lambda>g. length (ec2_members ex_resourcegroups g))
                               (Values ex_two_groups_rule)) = 4"
      by (simp add: ex_two_groups_rule_def ec2_members_def ex_resourcegroups_def)
    have base: "fst (target_step ex_ec2 ex_resourcegroups
                       \<lparr>Targets = Some ([?e, ex_tag_rule] @ [])\<rparr> (0, [])) = 2"
      by (simp add: target_step_eq grouping_count_def rules_of_def tag_total_def tagf
            explicit_total_def group_total_def tag_filters_of_def ex_tag_rule_def
            startswith_def split_def split_from.simps ex_ec2_def returned_ids_def)
    from resource_group_and_tag_filter_double_count
           [OF gkey2, where ?ec2.0 = ex_ec2 and resourcegroups = ex_resourcegroups
              and ?rs1.0 = "[?e, ex_tag_rule]" and ?rs2.0 = "[]" and n = 0 and calls = "[]"]
    have "fst (target_step ex_ec2 ex_resourcegroups
                 \<lparr>Targets = Some ([?e, ex_tag_rule] @ [ex_two_groups_rule] @ [])\<rparr> (0, []))
          = fst (target_step ex_ec2 ex_resourcegroups
                   \<lparr>Targets = Some ([?e, ex_tag_rule] @ [])\<rparr> (0, []))
            + sum_list (map (\<lambda>g. length (ec2_members ex_resourcegroups g))
                            (Values ex_two_groups_rule))"
      by blast
    then show ?thesis unfolding base members by simp
  qed
  have c: "fst (target_step
            (ex_ec2\<lparr>describe_instances :=
               (describe_instances ex_ec2)
                 (?F := describe_instances ex_ec2 ?F
                      @ [[\<lparr>Instances = [\<lparr>InstanceId = ''i-0c''\<rparr>]\<rparr>]])\<rparr>)
            (ex_resourcegroups\<lparr>list_group_resources :=
               (list_group_resources ex_resourcegroups)
                 (''patch-group'' := list_group_resources ex_resourcegroups ''patch-group''
                    @ [[?rc]])\<rparr>)
            ?t' (0, [])) = 5"
  proof -
    have F: "tag_filters_of (rules_of ?t') = ?F"
      by (simp add: tag_filters_of_def rules_of_def ex_tag_rule_def ex_group_rule_def
            startswith_def split_def split_from.simps)
    have hyp: "tag_filters_of (rules_of ?t') \<noteq> []
               \<and> count_list (group_names (rules_of ?t')) ''patch-group'' = 1
               \<and> ResourceType ?rc = ''AWS::EC2::Instance''
               \<and> ''i-0c'' \<notin> set (returned_ids (describe_instances ex_ec2
                                                  (tag_filters_of (rules_of ?t'))))"
      unfolding F
      by (simp add: group_names_def rules_of_def ex_group_rule_def ex_tag_rule_def
            ex_ec2_def returned_ids_def)
    have parts: "explicit_total (rules_of ?t') = 1"
      "group_total ex_resourcegroups (rules_of ?t') = 1"
      by (simp_all add: explicit_total_def group_total_def rules_of_def ex_group_rule_def
            ex_tag_rule_def ec2_members_def ex_resourcegroups_def)
    have base: "fst (target_step ex_ec2 ex_resourcegroups ?t' (0, [])) = 3"
      by (simp add: target_step_eq grouping_count_def tag_total_def F parts ex_ec2_def
            returned_ids_def)
    from resource_group_and_tag_filter_double_count
           [OF gkey, where ?ec2.0 = ex_ec2 and resourcegroups = ex_resourcegroups and t' = ?t'
              and g' = "''patch-group''" and r' = ?rc and h' = "''i-0c''" and n = 0
              and calls = "[]"] hyp
    have "fst (target_step
            (ex_ec2\<lparr>describe_instances :=
               (describe_instances ex_ec2)
                 (tag_filters_of (rules_of ?t') :=
                    describe_instances ex_ec2 (tag_filters_of (rules_of ?t'))
                      @ [[\<lparr>Instances = [\<lparr>InstanceId = ''i-0c''\<rparr>]\<rparr>]])\<rparr>)
            (ex_resourcegroups\<lparr>list_group_resources :=
               (list_group_resources ex_resourcegroups)
                 (''patch-group'' := list_group_resources ex_resourcegroups ''patch-group''
                    @ [[?rc]])\<rparr>)
            ?t' (0, []))
          = fst (target_step ex_ec2 ex_resourcegroups ?t' (0, [])) + 2"
      by blast
    then show ?thesis unfolding F base by simp
  qed
  from a b c show ?thesis by blast
qed

text \<open>
  C5. The identifiers that the tag query of a grouping returns are put into a set before
  they are counted: with at least one tag rule, the grouping adds the number of distinct
  identifiers returned; two answers with the same identifiers, whatever their repetitions
  over pages and reservations, give the same total; and one more occurrence of an
  identifier already returned leaves the set as it was.
\<close>

theorem tag_filter_hosts_counted_once:
  assumes "tag_filters_of (rules_of t) \<noteq> []"
  shows "fst (target_step ec2 resourcegroups t (n, calls))
           = n + explicit_total (rules_of t) + group_total resourcegroups (rules_of t)
             + card (set (returned_ids (describe_instances ec2 (tag_filters_of (rules_of t)))))
         \<and> (\<forall>ec2'. set (returned_ids (describe_instances ec2' (tag_filters_of (rules_of t))))
                      = set (returned_ids (describe_instances ec2 (tag_filters_of (rules_of t))))
                  \<longrightarrow> fst (target_step ec2' resourcegroups t (n, calls))
                      = fst (target_step ec2 resourcegroups t (n, calls)))
         \<and> (\<forall>h \<in> set (returned_ids (describe_instances ec2 (tag_filters_of (rules_of t)))).
               card (collect_instance_ids
                       (describe_instances ec2 (tag_filters_of (rules_of t))
                          @ [[\<lparr>Instances = [\<lparr>InstanceId = h\<rparr>]\<rparr>]]))
                 = card (collect_instance_ids
                           (describe_instances ec2 (tag_filters_of (rules_of t)))))"
proof (intro conjI)
  show "fst (target_step ec2 resourcegroups t (n, calls))
          = n + explicit_total (rules_of t) + group_total resourcegroups (rules_of t)
            + card (set (returned_ids (describe_instances ec2 (tag_filters_of (rules_of t)))))"
    using assms by (simp add: target_step_eq grouping_count_def tag_total_def)
next
  show "\<forall>ec2'. set (returned_ids (describe_instances ec2' (tag_filters_of (rules_of t))))
                  = set (returned_ids (describe_instances ec2 (tag_filters_of (rules_of t))))
              \<longrightarrow> fst (target_step ec2' resourcegroups t (n, calls))
                  = fst (target_step ec2 resourcegroups t (n, calls))"
    by (simp add: target_step_eq grouping_count_def tag_total_def)
next
  show "\<forall>h \<in> set (returned_ids (describe_instances ec2 (tag_filters_of (rules_of t)))).
          card (collect_instance_ids
                  (describe_instances ec2 (tag_filters_of (rules_of t))
                     @ [[\<lparr>Instances = [\<lparr>InstanceId = h\<rparr>]\<rparr>]]))
            = card (collect_instance_ids
                      (describe_instances ec2 (tag_filters_of (rules_of t))))"
    by (auto simp: collect_instance_ids_set returned_ids_def insert_absorb)
qed

theorem tag_filter_hosts_counted_once_witness:
  "tag_filters_of (rules_of \<lparr>Targets = Some [ex_tag_rule, ex_tag_rule2]\<rparr>) \<noteq> []
   \<and> returned_ids (describe_instances ex_ec2
         (tag_filters_of (rules_of \<lparr>Targets = Some [ex_tag_rule, ex_tag_rule2]\<rparr>)))
       = [''i-0a'', ''i-0b'', ''i-0a'']
   \<and> fst (target_step ex_ec2 ex_resourcegroups \<lparr>Targets = Some [ex_tag_rule, ex_tag_rule2]\<rparr>
            (0, [])) = 2"
proof -
  let ?t = "\<lparr>Targets = Some [ex_tag_rule, ex_tag_rule2]\<rparr>"
  have f: "tag_filters_of (rules_of ?t)
             = [\<lparr>filter_Name = ''tag:Patch'', filter_Values = [''yes'']\<rparr>,
                \<lparr>filter_Name = ''tag:Env'', filter_Values = [''prod'']\<rparr>]"
    by (simp add: tag_filters_of_def rules_of_def ex_tag_rule_def ex_tag_rule2_def
          startswith_def split_def split_from.simps)
  then have h: "tag_filters_of (rules_of ?t) \<noteq> []" by simp
  have ids: "returned_ids (describe_instances ex_ec2 (tag_filters_of (rules_of ?t)))
               = [''i-0a'', ''i-0b'', ''i-0a'']"
    unfolding f by (simp add: ex_ec2_def returned_ids_def)
  have e: "explicit_total (rules_of ?t) = 0" "group_total ex_resourcegroups (rules_of ?t) = 0"
    by (simp_all add: explicit_total_def group_total_def rules_of_def ex_tag_rule_def
          ex_tag_rule2_def)
  from tag_filter_hosts_counted_once [OF h, of ex_ec2 ex_resourcegroups 0 "[]"]
  have "fst (target_step ex_ec2 ex_resourcegroups ?t (0, []))
          = 0 + explicit_total (rules_of ?t) + group_total ex_resourcegroups (rules_of ?t)
            + card (set (returned_ids (describe_instances ex_ec2 (tag_filters_of (rules_of ?t)))))"
    by blast
  then have "fst (target_step ex_ec2 ex_resourcegroups ?t (0, [])) = 2"
    unfolding ids e by (simp add: insert_commute)
  with h ids show ?thesis by blast
qed

section \<open>Properties of the Window Scheduler Filter\<close>

text \<open>
  C6. \<open>runs_today\<close> accepts exactly the instants of the half-open interval from the start
  of the current UTC day to 24 hours later. \<open>start_of_day now\<close> is the midnight at or
  before \<open>now\<close>. A datetime at the next midnight is refused and one a microsecond
  earlier, the last instant a Python datetime can hold before it, is accepted, with or
  without a zone offset; a string is judged by the datetime it parses to.
\<close>

theorem runs_today_half_open_interval:
  "runs_today parse now (TimeDatetime d)
     = Inr (start_of_day now \<le> instant d \<and> instant d < start_of_day now + day_micros)
   \<and> start_of_day now mod day_micros = 0
   \<and> start_of_day now \<le> now \<and> now < start_of_day now + day_micros
   \<and> runs_today parse now
         (TimeDatetime \<lparr>wall = start_of_day now + day_micros + off, tzinfo = Some off\<rparr>)
       = Inr False
   \<and> runs_today parse now
         (TimeDatetime \<lparr>wall = start_of_day now + day_micros, tzinfo = None\<rparr>) = Inr False
   \<and> runs_today parse now
         (TimeDatetime \<lparr>wall = start_of_day now + day_micros - 1 + off, tzinfo = Some off\<rparr>)
       = Inr True
   \<and> runs_today parse now
         (TimeDatetime \<lparr>wall = start_of_day now + day_micros - 1, tzinfo = None\<rparr>) = Inr True
   \<and> runs_today parse now (TimeStr s)
       = (case parse (replace_Z s) of
            Inl e \<Rightarrow> Inl e
          | Inr d' \<Rightarrow> runs_today parse now (TimeDatetime d'))"
proof -
  have pos: "0 < day_micros" by (simp add: day_micros_def)
  have general: "runs_today parse now (TimeDatetime d')
      = Inr (start_of_day now \<le> instant d' \<and> instant d' < start_of_day now + day_micros)"
    for d'
    by (cases "tzinfo d'") (simp_all add: runs_today_def instant_def start_of_day_def Let_def)
  have aligned: "start_of_day now mod day_micros = 0"
    by (simp add: start_of_day_def)
  have le: "start_of_day now \<le> now"
    using pos by (simp add: start_of_day_def)
  have lt: "now < start_of_day now + day_micros"
    using pos by (simp add: start_of_day_def)
  have str: "runs_today parse now (TimeStr s)
       = (case parse (replace_Z s) of
            Inl e \<Rightarrow> Inl e
          | Inr d' \<Rightarrow> runs_today parse now (TimeDatetime d'))"
    by (simp add: runs_today_def split: sum.splits)
  show ?thesis
    using pos aligned le lt by (simp add: general str instant_def)
qed

theorem runs_today_half_open_interval_witness:
  "runs_today (\<lambda>s. Inl ValueError) 1793788200000000
     (TimeDatetime \<lparr>wall = 1793836800000000, tzinfo = Some 0\<rparr>) = Inr False
   \<and> runs_today (\<lambda>s. Inl ValueError) 1793788200000000
       (TimeDatetime \<lparr>wall = 1793836799999999, tzinfo = None\<rparr>) = Inr True
   \<and> runs_today (\<lambda>s. Inl ValueError) 1793788200000000
       (TimeDatetime \<lparr>wall = 1793750400000000, tzinfo = Some 0\<rparr>) = Inr True
   \<and> runs_today (\<lambda>s. Inl ValueError) 1793788200000000
       (TimeDatetime \<lparr>wall = 1793750399999999, tzinfo = Some 0\<rparr>) = Inr False"
proof -
  have s: "start_of_day 1793788200000000 = 1793750400000000"
    by (simp add: start_of_day_def day_micros_def)
  show ?thesis
    by (simp add: runs_today_half_open_interval s instant_def day_micros_def)
qed

section \<open>Properties of the Status Aggregator\<close>

text \<open>
  C1. A status \<open>Success\<close> adds one to \<open>success\<close>, and \<open>Failed\<close>, \<open>TimedOut\<close>,
  \<open>Cancelled\<close> and \<open>ExecutionTimedOut\<close> add one to \<open>failure\<close>, in both copies of the
  function. The status \<open>InProgress\<close> of the service adds to neither: the tuple of
  \<open>post-patch-notification.py\<close> does not hold it and the tuple of
  \<open>combined_notification.py\<close> holds the string \<open>In Progress\<close>, with a space, which no
  invocation reports. On the statuses Success, Success, Failed, InProgress, Success of
  one Install invocation both copies return 3 and 1.
\<close>

theorem in_progress_status_not_counted:
  "get_patch_status_counts failure_statuses_post ex_patch_ssm ex_loads
     ''mw-0c50858d01EXAMPLE'' []
     = Inr (3, 1, [DescribeMaintenanceWindowExecutions ''mw-0c50858d01EXAMPLE'',
                   DescribeMaintenanceWindowExecutionTasks ''exec-1'',
                   DescribeMaintenanceWindowExecutionTaskInvocations ''exec-1'' ''task-1'',
                   ListCommandInvocations ''cmd-1''])
   \<and> get_patch_status_counts failure_statuses_combined ex_patch_ssm ex_loads
       ''mw-0c50858d01EXAMPLE'' []
     = Inr (3, 1, [DescribeMaintenanceWindowExecutions ''mw-0c50858d01EXAMPLE'',
                   DescribeMaintenanceWindowExecutionTasks ''exec-1'',
                   DescribeMaintenanceWindowExecutionTaskInvocations ''exec-1'' ''task-1'',
                   ListCommandInvocations ''cmd-1''])
   \<and> status_step failure_statuses_post \<lparr>Status = Some ''InProgress'', cmd_InstanceId = i\<rparr>
         (success, failure) = (success, failure)
   \<and> status_step failure_statuses_combined \<lparr>Status = Some ''InProgress'', cmd_InstanceId = i\<rparr>
         (success, failure) = (success, failure)"
proof -
  have op: "parse_operation ex_loads
              \<lparr>Parameters = Some (PStr install_payload), ExecutionId = Some ''cmd-1''\<rparr>
            = Inr (PList [PStr ''Install''])"
    by (simp add: parse_operation_def ex_loads_def py_get_def install_payload_def quoted_def)
  have counts: "fold (\<lambda>cmd_page. fold (status_step fs) cmd_page) ex_statuses (0, 0) = (3, 1)"
    if "fs = failure_statuses_post \<or> fs = failure_statuses_combined" for fs
    using that
    by (auto simp: ex_statuses_def status_step_def failure_statuses_post_def
          failure_statuses_combined_def)
  have run: "get_patch_status_counts fs ex_patch_ssm ex_loads ''mw-0c50858d01EXAMPLE'' []
     = Inr (3, 1, [DescribeMaintenanceWindowExecutions ''mw-0c50858d01EXAMPLE'',
                   DescribeMaintenanceWindowExecutionTasks ''exec-1'',
                   DescribeMaintenanceWindowExecutionTaskInvocations ''exec-1'' ''task-1'',
                   ListCommandInvocations ''cmd-1''])"
    if "fs = failure_statuses_post \<or> fs = failure_statuses_combined" for fs
    by (simp add: get_patch_status_counts_def startswith_def ex_patch_ssm_def no_ssm_def
          sort_reverse_def count_execution_def task_step_def invocation_step_def op
          counts [OF that])
  have skip: "status_step failure_statuses_post \<lparr>Status = Some ''InProgress'', cmd_InstanceId = i\<rparr>
                (success, failure) = (success, failure)"
    "status_step failure_statuses_combined \<lparr>Status = Some ''InProgress'', cmd_InstanceId = i\<rparr>
                (success, failure) = (success, failure)"
    by (auto simp: status_step_def failure_statuses_post_def failure_statuses_combined_def)
  from run [of failure_statuses_post] run [of failure_statuses_combined] skip
  show ?thesis by simp
qed

lemma for_each_append:
  "for_each body (xs @ ys) s
     = (case for_each body xs s of Inl e \<Rightarrow> Inl e | Inr s' \<Rightarrow> for_each body ys s')"
  by (induction xs arbitrary: s) (auto split: sum.splits)

lemma invocation_step_no_install:
  assumes "parse_operation loads invocation = Inr (PList [])"
  shows "invocation_step fs ssm loads invocation (success, failure, calls)
           = Inr (success, failure, calls)"
  using assms by (simp add: invocation_step_def)

lemma for_each_skip:
  assumes "\<And>s. body x s = Inr s"
  shows "for_each body (before @ [x] @ after) s = for_each body (before @ after) s"
  using assms by (simp add: for_each_append split: sum.splits)

text \<open>
  C8, as the claim states it, fails: \<open>json.loads\<close> does not only raise
  \<open>JSONDecodeError\<close> on a string it cannot parse. On 1100 opening brackets, 1100
  closing brackets and an \<open>x\<close> it raises \<open>RecursionError\<close>, which the \<open>except\<close> clause
  does not name: the exception leaves \<open>get_patch_status_counts\<close>.
\<close>

theorem unparsable_parameters_escape_counterexample:
  "get_patch_status_counts failure_statuses_combined ex_deep_ssm ex_deep_loads
     ''mw-0c50858d01EXAMPLE'' [] = Inl RecursionError
   \<and> get_patch_status_counts failure_statuses_post ex_deep_ssm ex_deep_loads
       ''mw-0c50858d01EXAMPLE'' [] = Inl RecursionError"
proof -
  have nonempty: "deep_payload \<noteq> []" by (simp add: deep_payload_def)
  have op: "parse_operation ex_deep_loads
              \<lparr>Parameters = Some (PStr deep_payload), ExecutionId = Some ''cmd-1''\<rparr>
            = Inl RecursionError"
    using nonempty by (simp add: parse_operation_def ex_deep_loads_def)
  have run: "get_patch_status_counts fs ex_deep_ssm ex_deep_loads ''mw-0c50858d01EXAMPLE'' []
               = Inl RecursionError" for fs
    by (simp add: get_patch_status_counts_def startswith_def ex_deep_ssm_def ex_patch_ssm_def
          no_ssm_def sort_reverse_def count_execution_def task_step_def invocation_step_def op)
  from run [of failure_statuses_combined] run [of failure_statuses_post]
  show ?thesis by simp
qed

text \<open>
  C8, amended. An invocation whose \<open>Parameters\<close> is a non-empty string on which
  \<open>json.loads\<close> raises \<open>JSONDecodeError\<close> has the empty operation list and is skipped:
  the loop body returns normally with \<open>success\<close>, \<open>failure\<close> and the queries issued
  unchanged, so a page gives the same result with the invocation as without it. Any other
  exception that \<open>json.loads\<close> raises on the string is not caught: the loop body ends
  with it.
\<close>

theorem json_decode_error_skips_invocation:
  assumes "Parameters invocation = Some (PStr raw)"
    and "raw \<noteq> []"
  shows "(loads raw = Inl JSONDecodeError
            \<longrightarrow> parse_operation loads invocation = Inr (PList [])
                \<and> invocation_step fs ssm loads invocation (success, failure, calls)
                    = Inr (success, failure, calls)
                \<and> for_each (invocation_step fs ssm loads) (before @ [invocation] @ after) st
                    = for_each (invocation_step fs ssm loads) (before @ after) st)
         \<and> (\<forall>e. loads raw = Inl e \<and> e \<noteq> JSONDecodeError
                \<longrightarrow> invocation_step fs ssm loads invocation (success, failure, calls) = Inl e)"
proof (intro conjI impI allI)
  assume d: "loads raw = Inl JSONDecodeError"
  with assms show p: "parse_operation loads invocation = Inr (PList [])"
    by (simp add: parse_operation_def)
  have skip: "invocation_step fs ssm loads invocation s = Inr s" for s
    by (cases s) (simp add: invocation_step_no_install [OF p])
  from skip show "invocation_step fs ssm loads invocation (success, failure, calls)
                    = Inr (success, failure, calls)" .
  from skip for_each_skip [of "invocation_step fs ssm loads" invocation before after st]
  show "for_each (invocation_step fs ssm loads) (before @ [invocation] @ after) st
          = for_each (invocation_step fs ssm loads) (before @ after) st" by simp
next
  fix e
  assume "loads raw = Inl e \<and> e \<noteq> JSONDecodeError"
  with assms have "parse_operation loads invocation = Inl e"
    by (simp add: parse_operation_def)
  then show "invocation_step fs ssm loads invocation (success, failure, calls) = Inl e"
    by (simp add: invocation_step_def)
qed

theorem json_decode_error_skips_invocation_witness:
  "invocation_step failure_statuses_combined ex_patch_ssm ex_deep_loads
     \<lparr>Parameters = Some (PStr ''{Operation: Install''), ExecutionId = Some ''cmd-1''\<rparr>
     (2, 1, []) = Inr (2, 1, [])
   \<and> invocation_step failure_statuses_combined ex_patch_ssm ex_deep_loads
       \<lparr>Parameters = Some (PStr deep_payload), ExecutionId = Some ''cmd-1''\<rparr>
       (2, 1, []) = Inl RecursionError"
proof -
  have a: "Parameters \<lparr>Parameters = Some (PStr ''{Operation: Install''),
                        ExecutionId = Some ''cmd-1''\<rparr> = Some (PStr ''{Operation: Install'')"
    by simp
  have b: "''{Operation: Install'' \<noteq> []" by simp
  have h: "hd deep_payload = CHR ''[''" by (simp add: deep_payload_def hd_append)
  have ne: "''{Operation: Install'' \<noteq> deep_payload"
  proof
    assume "''{Operation: Install'' = deep_payload"
    then have "hd ''{Operation: Install'' = hd deep_payload" by (rule arg_cong)
    with h show False by simp
  qed
  have c: "ex_deep_loads ''{Operation: Install'' = Inl JSONDecodeError"
    using ne by (simp add: ex_deep_loads_def ex_loads_def install_payload_def quoted_def)
  have a': "Parameters \<lparr>Parameters = Some (PStr deep_payload), ExecutionId = Some ''cmd-1''\<rparr>
              = Some (PStr deep_payload)"
    by simp
  have b': "deep_payload \<noteq> []" by (simp add: deep_payload_def)
  have c': "ex_deep_loads deep_payload = Inl RecursionError \<and> RecursionError \<noteq> JSONDecodeError"
    by (simp add: ex_deep_loads_def)
  note th = json_decode_error_skips_invocation
              [where loads = ex_deep_loads and fs = failure_statuses_combined
                 and ssm = ex_patch_ssm and success = 2 and failure = 1 and calls = "[]"]
  from th [OF a b] c
  have x: "invocation_step failure_statuses_combined ex_patch_ssm ex_deep_loads
             \<lparr>Parameters = Some (PStr ''{Operation: Install''), ExecutionId = Some ''cmd-1''\<rparr>
             (2, 1, []) = Inr (2, 1, [])"
    by simp
  from th [OF a' b'] c'
  have y: "invocation_step failure_statuses_combined ex_patch_ssm ex_deep_loads
             \<lparr>Parameters = Some (PStr deep_payload), ExecutionId = Some ''cmd-1''\<rparr>
             (2, 1, []) = Inl RecursionError"
    by blast
  from x y show ?thesis by (rule conjI)
qed

text \<open>
  C10. An invocation whose \<open>Parameters\<close> is absent, is the empty string or is not a
  string (\<open>json.loads\<close> is not called then) has the empty operation list and is skipped:
  the loop body returns normally with \<open>success\<close>, \<open>failure\<close> and the queries issued
  unchanged, and a page gives the same result with the invocation as without it.
\<close>

theorem absent_or_non_string_parameters_skip_invocation:
  assumes "Parameters invocation = None \<or> Parameters invocation = Some (PStr [])
           \<or> (\<exists>v. Parameters invocation = Some v \<and> (\<forall>s. v \<noteq> PStr s))"
  shows "parse_operation loads invocation = Inr (PList [])
         \<and> invocation_step fs ssm loads invocation (success, failure, calls)
             = Inr (success, failure, calls)
         \<and> for_each (invocation_step fs ssm loads) (before @ [invocation] @ after) st
             = for_each (invocation_step fs ssm loads) (before @ after) st"
proof -
  have p: "parse_operation loads invocation = Inr (PList [])"
  proof -
    consider "Parameters invocation = None" | "Parameters invocation = Some (PStr [])"
      | v where "Parameters invocation = Some v" "\<forall>s. v \<noteq> PStr s"
      using assms by auto
    then show ?thesis
    proof cases
      case 1
      then show ?thesis by (simp add: parse_operation_def)
    next
      case 2
      then show ?thesis by (simp add: parse_operation_def)
    next
      case 3
      then show ?thesis by (cases v) (simp_all add: parse_operation_def)
    qed
  qed
  have skip: "invocation_step fs ssm loads invocation s = Inr s" for s
    by (cases s) (simp add: invocation_step_no_install [OF p])
  from p skip for_each_skip [of "invocation_step fs ssm loads" invocation before after st]
  show ?thesis by simp
qed

theorem absent_or_non_string_parameters_skip_invocation_witness:
  "invocation_step failure_statuses_combined ex_patch_ssm ex_loads
     \<lparr>Parameters = None, ExecutionId = Some ''cmd-1''\<rparr> (2, 1, []) = Inr (2, 1, [])
   \<and> invocation_step failure_statuses_combined ex_patch_ssm ex_loads
       \<lparr>Parameters = Some (PStr []), ExecutionId = Some ''cmd-1''\<rparr> (2, 1, []) = Inr (2, 1, [])
   \<and> invocation_step failure_statuses_combined ex_patch_ssm ex_loads
       \<lparr>Parameters = Some (PDict [(''parameters'', PDict [(''Operation'', PList [PStr ''Install''])])]),
        ExecutionId = Some ''cmd-1''\<rparr> (2, 1, []) = Inr (2, 1, [])"
proof -
  let ?d = "PDict [(''parameters'', PDict [(''Operation'', PList [PStr ''Install''])])]"
  have a: "Parameters \<lparr>Parameters = None, ExecutionId = Some ''cmd-1''\<rparr> = None
           \<or> Parameters \<lparr>Parameters = None, ExecutionId = Some ''cmd-1''\<rparr> = Some (PStr [])
           \<or> (\<exists>v. Parameters \<lparr>Parameters = None, ExecutionId = Some ''cmd-1''\<rparr> = Some v
                   \<and> (\<forall>s. v \<noteq> PStr s))"
    by simp
  have b: "Parameters \<lparr>Parameters = Some (PStr []), ExecutionId = Some ''cmd-1''\<rparr> = None
           \<or> Parameters \<lparr>Parameters = Some (PStr []), ExecutionId = Some ''cmd-1''\<rparr>
                = Some (PStr [])
           \<or> (\<exists>v. Parameters \<lparr>Parameters = Some (PStr []), ExecutionId = Some ''cmd-1''\<rparr>
                      = Some v \<and> (\<forall>s. v \<noteq> PStr s))"
    by simp
  have c: "Parameters \<lparr>Parameters = Some ?d, ExecutionId = Some ''cmd-1''\<rparr> = None
           \<or> Parameters \<lparr>Parameters = Some ?d, ExecutionId = Some ''cmd-1''\<rparr> = Some (PStr [])
           \<or> (\<exists>v. Parameters \<lparr>Parameters = Some ?d, ExecutionId = Some ''cmd-1''\<rparr> = Some v
                   \<and> (\<forall>s. v \<noteq> PStr s))"
    by simp
  note th = absent_or_non_string_parameters_skip_invocation
              [where loads = ex_loads and fs = failure_statuses_combined
                 and ssm = ex_patch_ssm and success = 2 and failure = 1 and calls = "[]"]
  from th [OF a] th [OF b] th [OF c] show ?thesis by simp
qed

lemma for_each_preserves:
  assumes "\<And>x s s'. P s \<Longrightarrow> body x s = Inr s' \<Longrightarrow> P s'"
    and "P s" and "for_each body xs s = Inr s'"
  shows "P s'"
  using assms(2,3)
proof (induction xs arbitrary: s)
  case Nil
  then show ?case by simp
next
  case (Cons x xs)
  from Cons.prems(2) obtain s1 where s1: "body x s = Inr s1" "for_each body xs s1 = Inr s'"
    by (auto split: sum.splits)
  from assms(1) [OF Cons.prems(1) s1(1)] have "P s1" .
  from Cons.IH [OF this s1(2)] show ?case .
qed

lemma extends_refl: "extends execution_id calls (success, failure, calls)"
  by (simp add: extends_def)

lemma invocation_step_extends:
  assumes "extends execution_id calls st"
    and "invocation_step fs ssm loads invocation st = Inr st'"
  shows "extends execution_id calls st'"
proof -
  obtain success failure cs where st: "st = (success, failure, cs)" by (cases st) auto
  from assms(1) st obtain added where a: "cs = calls @ added"
    "list_all (inspects execution_id) added" by (auto simp: extends_def)
  from assms(2) st
  have "snd (snd st') = cs \<or> (\<exists>command_id. snd (snd st') = cs @ [ListCommandInvocations command_id])"
    by (auto simp: invocation_step_def Let_def split: sum.splits if_splits option.splits prod.splits)
  with a show ?thesis by (auto simp: extends_def)
qed

lemma page_extends:
  assumes "extends execution_id calls st"
    and "for_each (invocation_step fs ssm loads) page st = Inr st'"
  shows "extends execution_id calls st'"
  using for_each_preserves [where P = "extends execution_id calls"
          and body = "invocation_step fs ssm loads", OF _ assms]
    invocation_step_extends by blast

lemma pages_extends:
  assumes "extends execution_id calls st"
    and "for_each (\<lambda>page. for_each (invocation_step fs ssm loads) page) pages st = Inr st'"
  shows "extends execution_id calls st'"
  using for_each_preserves [where P = "extends execution_id calls"
          and body = "\<lambda>page. for_each (invocation_step fs ssm loads) page", OF _ assms]
    page_extends by blast

lemma task_step_extends:
  assumes "extends execution_id calls st"
    and "task_step fs ssm loads execution_id task st = Inr st'"
  shows "extends execution_id calls st'"
proof -
  obtain success failure cs where st: "st = (success, failure, cs)" by (cases st) auto
  show ?thesis
  proof (cases "TaskArn task \<noteq> Some ''AWS-RunPatchBaseline''")
    case True
    with assms st show ?thesis by (simp add: task_step_def)
  next
    case False
    let ?c = "DescribeMaintenanceWindowExecutionTaskInvocations execution_id (TaskExecutionId task)"
    from assms(1) st have "extends execution_id calls (success, failure, cs @ [?c])"
      by (auto simp: extends_def)
    moreover from False assms(2) st
    have "for_each (\<lambda>page. for_each (invocation_step fs ssm loads) page)
            (describe_maintenance_window_execution_task_invocations ssm execution_id
               (TaskExecutionId task))
            (success, failure, cs @ [?c]) = Inr st'"
      by (simp add: task_step_def Let_def)
    ultimately show ?thesis by (rule pages_extends)
  qed
qed

lemma count_execution_calls:
  assumes "count_execution fs ssm loads execution_id calls = Inr (success, failure, calls')"
  shows "\<exists>added. calls' = calls @ [DescribeMaintenanceWindowExecutionTasks execution_id] @ added
                 \<and> list_all (inspects execution_id) added"
proof -
  let ?c0 = "calls @ [DescribeMaintenanceWindowExecutionTasks execution_id]"
  have "extends execution_id ?c0 (success, failure, calls')"
    using for_each_preserves [where P = "extends execution_id ?c0"
            and body = "task_step fs ssm loads execution_id", OF _ extends_refl]
      task_step_extends assms unfolding count_execution_def by blast
  then show ?thesis by (auto simp: extends_def)
qed

lemma insort_key_greatest:
  "\<forall>x \<in> set ys. key x < key e \<Longrightarrow> insort_key key e ys = ys @ [e]"
  by (induction ys) auto

lemma insort_key_keeps_last:
  "ys \<noteq> [] \<Longrightarrow> key a \<le> key (last ys)
   \<Longrightarrow> insort_key key a ys \<noteq> [] \<and> last (insort_key key a ys) = last ys"
  by (induction ys) auto

lemma foldr_insort_keeps_last:
  "\<forall>a \<in> set as. key a \<le> key (last ys) \<Longrightarrow> ys \<noteq> []
   \<Longrightarrow> foldr (insort_key key) as ys \<noteq> [] \<and> last (foldr (insort_key key) as ys) = last ys"
proof (induction as)
  case Nil
  then show ?case by simp
next
  case (Cons a as)
  then have ih: "foldr (insort_key key) as ys \<noteq> []"
    "last (foldr (insort_key key) as ys) = last ys" by auto
  from Cons.prems have "key a \<le> key (last ys)" by simp
  with ih insort_key_keeps_last [of "foldr (insort_key key) as ys" key a]
  show ?case by simp
qed

lemma sort_reverse_first:
  fixes key :: "'a \<Rightarrow> int"
  assumes "\<forall>x \<in> set pre. key x < key e" and "\<forall>x \<in> set post. key x \<le> key e"
  shows "\<exists>rest. sort_reverse key (pre @ [e] @ post) = e # rest"
proof -
  have g: "insort_key key e (sort_key key (rev pre)) = sort_key key (rev pre) @ [e]"
    using assms(1) by (intro insort_key_greatest) simp
  have "sort_key key (rev post @ e # rev pre)
          = foldr (insort_key key) (rev post) (insort_key key e (sort_key key (rev pre)))"
    by (simp add: sort_key_def)
  then have "sort_key key (rev post @ e # rev pre)
          = foldr (insort_key key) (rev post) (sort_key key (rev pre) @ [e])"
    by (simp only: g)
  moreover have "foldr (insort_key key) (rev post) (sort_key key (rev pre) @ [e]) \<noteq> []
          \<and> last (foldr (insort_key key) (rev post) (sort_key key (rev pre) @ [e])) = e"
    using foldr_insort_keeps_last [of "rev post" key "sort_key key (rev pre) @ [e]"] assms(2)
    by simp
  ultimately have "sort_key key (rev post @ e # rev pre) \<noteq> []"
    "last (sort_key key (rev post @ e # rev pre)) = e" by simp_all
  then obtain front where f: "sort_key key (rev post @ e # rev pre) = front @ [e]"
    by (metis append_butlast_last_id)
  have "sort_reverse key (pre @ [e] @ post) = rev (sort_key key (rev post @ e # rev pre))"
    by (simp add: sort_reverse_def)
  also have "\<dots> = e # rev front" by (simp only: f rev_append rev.simps append.simps)
  finally show ?thesis by blast
qed

lemma count_execution_reads:
  assumes "tasks' execution_id = describe_maintenance_window_execution_tasks ssm execution_id"
    and "invocations' execution_id
           = describe_maintenance_window_execution_task_invocations ssm execution_id"
  shows "count_execution fs
           (ssm\<lparr>describe_maintenance_window_execution_tasks := tasks',
                describe_maintenance_window_execution_task_invocations := invocations'\<rparr>)
           loads execution_id calls
         = count_execution fs ssm loads execution_id calls"
proof -
  let ?ssm' = "ssm\<lparr>describe_maintenance_window_execution_tasks := tasks',
                    describe_maintenance_window_execution_task_invocations := invocations'\<rparr>"
  have i: "invocation_step fs ?ssm' loads = invocation_step fs ssm loads"
    by (intro ext)
       (auto simp: invocation_step_def Let_def split: sum.splits option.splits prod.splits)
  have t: "task_step fs ?ssm' loads execution_id = task_step fs ssm loads execution_id"
    by (intro ext) (auto simp: task_step_def Let_def i assms(2) split: prod.splits)
  show ?thesis by (simp add: count_execution_def t assms(1))
qed

lemma first_latest_execution_inspected:
  assumes prefix: "startswith window_id ''mw-''"
    and listed: "describe_maintenance_window_executions ssm window_id = pre @ [e] @ post"
    and older: "\<forall>x \<in> set pre. StartTime x < StartTime e"
    and not_newer: "\<forall>x \<in> set post. StartTime x \<le> StartTime e"
  shows "get_patch_status_counts fs ssm loads window_id calls
           = count_execution fs ssm loads (WindowExecutionId e)
               (calls @ [DescribeMaintenanceWindowExecutions window_id])
         \<and> (\<forall>success failure calls'.
               get_patch_status_counts fs ssm loads window_id calls
                 = Inr (success, failure, calls')
               \<longrightarrow> (\<exists>added. calls' = calls @ [DescribeMaintenanceWindowExecutions window_id,
                                    DescribeMaintenanceWindowExecutionTasks (WindowExecutionId e)]
                                   @ added
                           \<and> list_all (inspects (WindowExecutionId e)) added))
         \<and> (\<forall>tasks' invocations'.
               tasks' (WindowExecutionId e)
                 = describe_maintenance_window_execution_tasks ssm (WindowExecutionId e)
               \<and> invocations' (WindowExecutionId e)
                   = describe_maintenance_window_execution_task_invocations ssm
                       (WindowExecutionId e)
               \<longrightarrow> get_patch_status_counts fs
                     (ssm\<lparr>describe_maintenance_window_execution_tasks := tasks',
                          describe_maintenance_window_execution_task_invocations := invocations'\<rparr>)
                     loads window_id calls
                   = get_patch_status_counts fs ssm loads window_id calls)"
proof -
  from sort_reverse_first [OF older not_newer] obtain rest
    where first: "sort_reverse StartTime (pre @ [e] @ post) = e # rest" by blast
  have sel: "get_patch_status_counts fs client loads window_id calls
           = count_execution fs client loads (WindowExecutionId e)
               (calls @ [DescribeMaintenanceWindowExecutions window_id])"
    if "describe_maintenance_window_executions client window_id = pre @ [e] @ post"
    for client
    using that prefix first by (simp add: get_patch_status_counts_def Let_def)
  have a: "get_patch_status_counts fs ssm loads window_id calls
           = count_execution fs ssm loads (WindowExecutionId e)
               (calls @ [DescribeMaintenanceWindowExecutions window_id])"
    by (rule sel [OF listed])
  have b: "\<exists>added. calls' = calls @ [DescribeMaintenanceWindowExecutions window_id,
                           DescribeMaintenanceWindowExecutionTasks (WindowExecutionId e)] @ added
                 \<and> list_all (inspects (WindowExecutionId e)) added"
    if "get_patch_status_counts fs ssm loads window_id calls = Inr (success, failure, calls')"
    for success failure calls'
    using count_execution_calls [of fs ssm loads "WindowExecutionId e"
            "calls @ [DescribeMaintenanceWindowExecutions window_id]" success failure calls']
      that a by simp
  have c: "get_patch_status_counts fs
             (ssm\<lparr>describe_maintenance_window_execution_tasks := tasks',
                  describe_maintenance_window_execution_task_invocations := invocations'\<rparr>)
             loads window_id calls
           = get_patch_status_counts fs ssm loads window_id calls"
    if "tasks' (WindowExecutionId e)
          = describe_maintenance_window_execution_tasks ssm (WindowExecutionId e)"
      and "invocations' (WindowExecutionId e)
          = describe_maintenance_window_execution_task_invocations ssm (WindowExecutionId e)"
    for tasks' invocations'
  proof -
    let ?ssm' = "ssm\<lparr>describe_maintenance_window_execution_tasks := tasks',
                      describe_maintenance_window_execution_task_invocations := invocations'\<rparr>"
    have "describe_maintenance_window_executions ?ssm' window_id = pre @ [e] @ post"
      using listed by simp
    from sel [OF this] a
      count_execution_reads [where tasks' = tasks' and invocations' = invocations'
         and execution_id = "WindowExecutionId e" and ssm = ssm, OF that]
    show ?thesis by simp
  qed
  from a b c show ?thesis by blast
qed

lemma first_maximal_exists:
  fixes key :: "'a \<Rightarrow> int"
  assumes "xs \<noteq> []"
  shows "\<exists>pre e post. xs = pre @ [e] @ post \<and> (\<forall>x \<in> set pre. key x < key e)
                       \<and> (\<forall>x \<in> set post. key x \<le> key e)"
  using assms
proof (induction xs)
  case Nil
  then show ?case by simp
next
  case (Cons x xs)
  show ?case
  proof (cases "xs = []")
    case True
    then have "x # xs = [] @ [x] @ []" by simp
    then show ?thesis by (metis empty_iff list.set(1))
  next
    case False
    from Cons.IH [OF this] obtain pre e post
      where d: "xs = pre @ [e] @ post" "\<forall>y \<in> set pre. key y < key e"
        "\<forall>y \<in> set post. key y \<le> key e" by blast
    show ?thesis
    proof (cases "key x < key e")
      case True
      with d have "x # xs = (x # pre) @ [e] @ post" "\<forall>y \<in> set (x # pre). key y < key e"
        by simp_all
      with d(3) show ?thesis by blast
    next
      case False
      with d have "x # xs = [] @ [x] @ xs" "\<forall>y \<in> set []. key y < key x"
        "\<forall>y \<in> set xs. key y \<le> key x" by auto
      then show ?thesis by blast
    qed
  qed
qed

text \<open>
  C3. For a window id with the prefix \<open>mw-\<close> whose listed executions are not empty,
  one execution is inspected: the first, in input order, among those of greatest
  \<open>StartTime\<close> (the executions listed before it are strictly older, those after it are
  not newer). The result is the count of that execution. After the listing of the
  executions the function lists the tasks of that execution once, and every later query is
  for an invocation page of that execution or for a command. What the service would answer
  for the tasks and invocations of the other executions has no influence on the result.
\<close>

theorem latest_execution_selected:
  assumes prefix: "startswith window_id ''mw-''"
    and listed: "describe_maintenance_window_executions ssm window_id \<noteq> []"
  shows "\<exists>pre e post.
           describe_maintenance_window_executions ssm window_id = pre @ [e] @ post
           \<and> (\<forall>x \<in> set pre. StartTime x < StartTime e)
           \<and> (\<forall>x \<in> set post. StartTime x \<le> StartTime e)
           \<and> get_patch_status_counts fs ssm loads window_id calls
               = count_execution fs ssm loads (WindowExecutionId e)
                   (calls @ [DescribeMaintenanceWindowExecutions window_id])
           \<and> (\<forall>success failure calls'.
                 get_patch_status_counts fs ssm loads window_id calls
                   = Inr (success, failure, calls')
                 \<longrightarrow> (\<exists>added. calls' = calls @ [DescribeMaintenanceWindowExecutions window_id,
                                      DescribeMaintenanceWindowExecutionTasks (WindowExecutionId e)]
                                     @ added
                             \<and> list_all (inspects (WindowExecutionId e)) added))
           \<and> (\<forall>tasks' invocations'.
                 tasks' (WindowExecutionId e)
                   = describe_maintenance_window_execution_tasks ssm (WindowExecutionId e)
                 \<and> invocations' (WindowExecutionId e)
                     = describe_maintenance_window_execution_task_invocations ssm
                         (WindowExecutionId e)
                 \<longrightarrow> get_patch_status_counts fs
                       (ssm\<lparr>describe_maintenance_window_execution_tasks := tasks',
                            describe_maintenance_window_execution_task_invocations := invocations'\<rparr>)
                       loads window_id calls
                     = get_patch_status_counts fs ssm loads window_id calls)"
proof -
  from first_maximal_exists [OF listed, of StartTime] obtain pre e post
    where d: "describe_maintenance_window_executions ssm window_id = pre @ [e] @ post"
      "\<forall>x \<in> set pre. StartTime x < StartTime e" "\<forall>x \<in> set post. StartTime x \<le> StartTime e"
    by blast
  from first_latest_execution_inspected [OF prefix d, of fs loads calls] d
  show ?thesis by blast
qed

theorem latest_execution_selected_witness:
  "get_patch_status_counts failure_statuses_combined ex_history_ssm ex_loads
     ''mw-0c50858d01EXAMPLE'' []
   = Inr (3, 1, [DescribeMaintenanceWindowExecutions ''mw-0c50858d01EXAMPLE'',
                 DescribeMaintenanceWindowExecutionTasks ''exec-1'',
                 DescribeMaintenanceWindowExecutionTaskInvocations ''exec-1'' ''task-1'',
                 ListCommandInvocations ''cmd-1''])"
proof -
  let ?e0 = "\<lparr>WindowExecutionId = ''exec-0'', StartTime = 1793664000000000\<rparr>"
  let ?e1 = "\<lparr>WindowExecutionId = ''exec-1'', StartTime = 1793750400000000\<rparr>"
  let ?e2 = "\<lparr>WindowExecutionId = ''exec-2'', StartTime = 1793750400000000\<rparr>"
  have prefix: "startswith ''mw-0c50858d01EXAMPLE'' ''mw-''" by (simp add: startswith_def)
  have listed: "describe_maintenance_window_executions ex_history_ssm ''mw-0c50858d01EXAMPLE''
                  = [?e0, ?e1, ?e2]"
    by (simp add: ex_history_ssm_def)
  then have nonempty:
    "describe_maintenance_window_executions ex_history_ssm ''mw-0c50858d01EXAMPLE'' \<noteq> []"
    by simp
  from latest_execution_selected [OF prefix nonempty, of failure_statuses_combined ex_loads "[]"]
  obtain pre e post
    where d: "[?e0, ?e1, ?e2] = pre @ [e] @ post"
      and older: "\<forall>x \<in> set pre. StartTime x < StartTime e"
      and not_newer: "\<forall>x \<in> set post. StartTime x \<le> StartTime e"
      and sel: "get_patch_status_counts failure_statuses_combined ex_history_ssm ex_loads
                  ''mw-0c50858d01EXAMPLE'' []
                = count_execution failure_statuses_combined ex_history_ssm ex_loads
                    (WindowExecutionId e)
                    ([] @ [DescribeMaintenanceWindowExecutions ''mw-0c50858d01EXAMPLE''])"
    unfolding listed by blast
  from d have "(pre = [] \<and> e = ?e0 \<and> post = [?e1, ?e2])
               \<or> (pre = [?e0] \<and> e = ?e1 \<and> post = [?e2])
               \<or> (pre = [?e0, ?e1] \<and> e = ?e2 \<and> post = [])"
    by (auto simp: Cons_eq_append_conv)
  with older not_newer have e: "e = ?e1" by auto
  have op: "parse_operation ex_loads
              \<lparr>Parameters = Some (PStr install_payload), ExecutionId = Some ''cmd-1''\<rparr>
            = Inr (PList [PStr ''Install''])"
    by (simp add: parse_operation_def ex_loads_def py_get_def install_payload_def quoted_def)
  have counts: "fold (\<lambda>cmd_page. fold (status_step failure_statuses_combined) cmd_page)
                  ex_statuses (0, 0) = (3, 1)"
    by (simp add: ex_statuses_def status_step_def failure_statuses_combined_def)
  have run: "count_execution failure_statuses_combined ex_history_ssm ex_loads
               (WindowExecutionId ?e1) ([] @ [DescribeMaintenanceWindowExecutions ''mw-0c50858d01EXAMPLE''])
             = Inr (3, 1, [DescribeMaintenanceWindowExecutions ''mw-0c50858d01EXAMPLE'',
                 DescribeMaintenanceWindowExecutionTasks ''exec-1'',
                 DescribeMaintenanceWindowExecutionTaskInvocations ''exec-1'' ''task-1'',
                 ListCommandInvocations ''cmd-1''])"
    by (simp add: count_execution_def ex_history_ssm_def no_ssm_def task_step_def
          invocation_step_def op counts)
  from sel run show ?thesis unfolding e by simp
qed

section \<open>Properties of the session cache\<close>

lemma inspects_not_assume_role:
  "list_all (inspects execution_id) added \<Longrightarrow> filter is_assume_role added = []"
proof (induction added)
  case Nil
  then show ?case by simp
next
  case (Cons c added)
  then show ?case by (cases c) simp_all
qed

lemma get_patch_status_counts_no_assume_role:
  assumes "get_patch_status_counts fs ssm loads window_id calls = Inr (success, failure, calls')"
  shows "assume_role_calls calls' = assume_role_calls calls"
proof (cases "startswith window_id ''mw-''")
  case False
  with assms show ?thesis by (simp add: get_patch_status_counts_def)
next
  case True
  show ?thesis
  proof (cases "describe_maintenance_window_executions ssm window_id = []")
    case True
    with \<open>startswith window_id ''mw-''\<close> assms show ?thesis
      by (auto simp: get_patch_status_counts_def assume_role_calls_def)
  next
    case False
    with \<open>startswith window_id ''mw-''\<close> assms obtain execution :: window_execution
      where "count_execution fs ssm loads (WindowExecutionId execution)
               (calls @ [DescribeMaintenanceWindowExecutions window_id])
             = Inr (success, failure, calls')"
      by (auto simp: get_patch_status_counts_def Let_def split: list.splits)
    from count_execution_calls [OF this] obtain added
      where "calls' = (calls @ [DescribeMaintenanceWindowExecutions window_id])
                        @ [DescribeMaintenanceWindowExecutionTasks (WindowExecutionId execution)]
                        @ added"
        and "list_all (inspects (WindowExecutionId execution)) added" by blast
    with inspects_not_assume_role [of "WindowExecutionId execution" added]
    show ?thesis by (simp add: assume_role_calls_def)
  qed
qed

lemma row_session_hit:
  "cache_hit cache account_id role_name region
   \<Longrightarrow> row_session w account_id role_name region (cache, calls) = Inr (cache, calls)"
  by (auto simp: cache_hit_def row_session_def)

lemma row_session_miss:
  "\<not> cache_hit cache account_id role_name region
   \<Longrightarrow> row_session w account_id role_name region (cache, calls)
       = (case assume_role w account_id role_name region of
            Inl e \<Rightarrow> Inl e
          | Inr new_session \<Rightarrow>
              Inr (\<lparr>cached_session = Some new_session, cached_account_id = Some account_id,
                    cached_role_name = Some role_name, cached_region = Some region\<rparr>,
                   calls @ [AssumeRole account_id role_name region]))"
  by (auto simp: cache_hit_def row_session_def)

text \<open>
  C9. The head of the row loop of \<open>post_patch_function\<close>. When the slot holds a session
  and its three keys equal the row's, the slot and the queries issued are left as they
  are: the broker is not called. Otherwise (the empty slot of the first row included)
  the broker is called once and, when it answers with a session, the slot becomes the
  row's three keys with that session. In a completed pass of the loop body the session
  that queries the window's status is the one in the slot, and the number of broker
  calls grows by 0 on a hit and by 1 on a miss.
\<close>

theorem session_cache_reuse_or_refresh:
  "(cache_hit cache account_id role_name region
      \<longrightarrow> row_session w account_id role_name region (cache, calls) = Inr (cache, calls))
   \<and> (\<not> cache_hit cache account_id role_name region
      \<longrightarrow> row_session w account_id role_name region (cache, calls)
          = (case assume_role w account_id role_name region of
               Inl e \<Rightarrow> Inl e
             | Inr new_session \<Rightarrow>
                 Inr (\<lparr>cached_session = Some new_session, cached_account_id = Some account_id,
                       cached_role_name = Some role_name, cached_region = Some region\<rparr>,
                      calls @ [AssumeRole account_id role_name region])))
   \<and> \<not> cache_hit empty_cache account_id role_name region
   \<and> (post_row_step fs w row (cache, rows, calls) = Inr (cache', rows', calls')
      \<longrightarrow> cache_hit cache' (AccountId row) (RoleName row) (Region row)
          \<and> (if cache_hit cache (AccountId row) (RoleName row) (Region row)
             then cache' = cache \<and> assume_role_calls calls' = assume_role_calls calls
             else (\<exists>new_session.
                     assume_role w (AccountId row) (RoleName row) (Region row) = Inr new_session
                     \<and> cached_session cache' = Some new_session)
                  \<and> assume_role_calls calls' = assume_role_calls calls + 1)
          \<and> (\<exists>session success failure.
                cached_session cache' = Some session
                \<and> get_patch_status_counts fs (client_ssm session) (json_loads w)
                      (MaintenanceWindowId row)
                      (if cache_hit cache (AccountId row) (RoleName row) (Region row)
                       then calls
                       else calls @ [AssumeRole (AccountId row) (RoleName row) (Region row)])
                    = Inr (success, failure, calls')))"
proof (intro conjI impI)
  show "cache_hit cache account_id role_name region
        \<Longrightarrow> row_session w account_id role_name region (cache, calls) = Inr (cache, calls)"
    by (rule row_session_hit)
  show "\<not> cache_hit cache account_id role_name region
        \<Longrightarrow> row_session w account_id role_name region (cache, calls)
          = (case assume_role w account_id role_name region of
               Inl e \<Rightarrow> Inl e
             | Inr new_session \<Rightarrow>
                 Inr (\<lparr>cached_session = Some new_session, cached_account_id = Some account_id,
                       cached_role_name = Some role_name, cached_region = Some region\<rparr>,
                      calls @ [AssumeRole account_id role_name region]))"
    by (rule row_session_miss)
  show "\<not> cache_hit empty_cache account_id role_name region"
    by (simp add: cache_hit_def empty_cache_def)
next
  let ?a = "AccountId row" and ?r = "RoleName row" and ?g = "Region row"
  assume step: "post_row_step fs w row (cache, rows, calls) = Inr (cache', rows', calls')"
  then obtain calls1 session success failure
    where rs: "row_session w ?a ?r ?g (cache, calls) = Inr (cache', calls1)"
      and cs: "cached_session cache' = Some session"
      and gp: "get_patch_status_counts fs (client_ssm session) (json_loads w)
                 (MaintenanceWindowId row) calls1 = Inr (success, failure, calls')"
    by (auto simp: post_row_step_def Let_def split: sum.splits option.splits prod.splits)
  note keep = get_patch_status_counts_no_assume_role [OF gp]
  show "cache_hit cache' ?a ?r ?g"
  proof (cases "cache_hit cache ?a ?r ?g")
    case True
    with rs show ?thesis by (simp add: row_session_hit)
  next
    case False
    with rs cs show ?thesis
      by (auto simp: row_session_miss cache_hit_def split: sum.splits)
  qed
  show "if cache_hit cache ?a ?r ?g
        then cache' = cache \<and> assume_role_calls calls' = assume_role_calls calls
        else (\<exists>new_session. assume_role w ?a ?r ?g = Inr new_session
                \<and> cached_session cache' = Some new_session)
             \<and> assume_role_calls calls' = assume_role_calls calls + 1"
  proof (cases "cache_hit cache ?a ?r ?g")
    case True
    with rs keep show ?thesis by (simp add: row_session_hit)
  next
    case False
    with rs keep show ?thesis
      by (auto simp: row_session_miss assume_role_calls_def split: sum.splits)
  qed
  show "\<exists>session success failure.
          cached_session cache' = Some session
          \<and> get_patch_status_counts fs (client_ssm session) (json_loads w)
                (MaintenanceWindowId row)
                (if cache_hit cache ?a ?r ?g then calls else calls @ [AssumeRole ?a ?r ?g])
              = Inr (success, failure, calls')"
  proof (cases "cache_hit cache ?a ?r ?g")
    case True
    with rs have "calls1 = calls" by (simp add: row_session_hit)
    with True cs gp show ?thesis by auto
  next
    case False
    with rs have "calls1 = calls @ [AssumeRole ?a ?r ?g]"
      by (auto simp: row_session_miss split: sum.splits)
    with False cs gp show ?thesis by auto
  qed
qed

theorem session_cache_reuse_or_refresh_witness:
  "row_session ex_world ''111111111111'' ''PatchAudit'' ''us-east-1''
     (ex_cache, [AssumeRole ''111111111111'' ''PatchAudit'' ''us-east-1''])
     = Inr (ex_cache, [AssumeRole ''111111111111'' ''PatchAudit'' ''us-east-1''])
   \<and> row_session ex_world ''111111111111'' ''PatchAudit'' ''us-east-1'' (empty_cache, [])
       = Inr (ex_cache, [AssumeRole ''111111111111'' ''PatchAudit'' ''us-east-1''])
   \<and> row_session ex_world ''111111111111'' ''PatchAudit'' ''eu-west-1''
         (ex_cache, [AssumeRole ''111111111111'' ''PatchAudit'' ''us-east-1''])
       = Inr (ex_cache\<lparr>cached_region := Some ''eu-west-1''\<rparr>,
              [AssumeRole ''111111111111'' ''PatchAudit'' ''us-east-1'',
               AssumeRole ''111111111111'' ''PatchAudit'' ''eu-west-1''])"
proof -
  have ok: "assume_role ex_world ''111111111111'' ''PatchAudit'' region = Inr ex_session"
    for region
    by (simp add: assume_role_def ex_world_def)
  have hit: "cache_hit ex_cache ''111111111111'' ''PatchAudit'' ''us-east-1''"
    by (simp add: cache_hit_def ex_cache_def)
  have miss1: "\<not> cache_hit empty_cache ''111111111111'' ''PatchAudit'' ''us-east-1''"
    by (simp add: cache_hit_def empty_cache_def)
  have miss2: "\<not> cache_hit ex_cache ''111111111111'' ''PatchAudit'' ''eu-west-1''"
    by (simp add: cache_hit_def ex_cache_def)
  note th = session_cache_reuse_or_refresh [where w = ex_world]
  from th [where cache = ex_cache and account_id = "''111111111111''"
             and role_name = "''PatchAudit''" and region = "''us-east-1''"
             and calls = "[AssumeRole ''111111111111'' ''PatchAudit'' ''us-east-1'']"] hit
  have a: "row_session ex_world ''111111111111'' ''PatchAudit'' ''us-east-1''
             (ex_cache, [AssumeRole ''111111111111'' ''PatchAudit'' ''us-east-1''])
           = Inr (ex_cache, [AssumeRole ''111111111111'' ''PatchAudit'' ''us-east-1''])"
    by blast
  from th [where cache = empty_cache and account_id = "''111111111111''"
             and role_name = "''PatchAudit''" and region = "''us-east-1''"
             and calls = "[]"] miss1
  have b: "row_session ex_world ''111111111111'' ''PatchAudit'' ''us-east-1'' (empty_cache, [])
           = Inr (ex_cache, [AssumeRole ''111111111111'' ''PatchAudit'' ''us-east-1''])"
    by (simp add: ok ex_cache_def)
  from th [where cache = ex_cache and account_id = "''111111111111''"
             and role_name = "''PatchAudit''" and region = "''eu-west-1''"
             and calls = "[AssumeRole ''111111111111'' ''PatchAudit'' ''us-east-1'']"] miss2
  have c: "row_session ex_world ''111111111111'' ''PatchAudit'' ''eu-west-1''
             (ex_cache, [AssumeRole ''111111111111'' ''PatchAudit'' ''us-east-1''])
           = Inr (ex_cache\<lparr>cached_region := Some ''eu-west-1''\<rparr>,
                  [AssumeRole ''111111111111'' ''PatchAudit'' ''us-east-1'',
                   AssumeRole ''111111111111'' ''PatchAudit'' ''eu-west-1''])"
    by (simp add: ok ex_cache_def)
  from a b c show ?thesis by blast
qed

section \<open>Properties of the pre-run handler\<close>

lemma ex_assume_role:
  "assume_role (ex_world\<lparr>accounts_csv := accounts\<rparr>) ''111111111111'' ''PatchAudit'' ''us-east-1''
     = Inr ex_session"
  "assume_role (ex_world\<lparr>accounts_csv := accounts\<rparr>) ''333333333333'' ''PatchAudit'' ''us-east-1''
     = Inl ClientError"
  by (simp_all add: assume_role_def ex_world_def)

lemma ex_target_count:
  "get_target_count ex_pre_ssm ex_ec2 ex_resourcegroups ''mw-0c50858d01EXAMPLE'' calls
     = (6, calls @ [DescribeMaintenanceWindowTargets ''mw-0c50858d01EXAMPLE''])"
  by (simp add: get_target_count_eq ex_pre_ssm_def ex_explicit_targets_def grouping_count_def
        grouping_calls_def rules_of_def explicit_total_def group_total_def tag_total_def
        tag_filters_of_def group_calls_def tag_calls_def startswith_def)

lemma ex_account_step:
  "account_step (ex_world\<lparr>accounts_csv := accounts\<rparr>) ex_account (output_rows, calls)
     = Inr (output_rows @ [ex_forecast_row], calls @ ex_account_calls)"
proof -
  have today: "runs_today (\<lambda>s. Inl ValueError) 1793788200000000
                 (TimeDatetime \<lparr>wall = 1793790000000000, tzinfo = Some 0\<rparr>) = Inr True"
    by (simp add: runs_today_def instant_def day_micros_def)
  have w1: "window_step (ex_world\<lparr>accounts_csv := accounts\<rparr>) ex_session ex_account
              \<lparr>WindowId = ''mw-0c50858d01EXAMPLE'', Name = Some ''mmpatching-prod'',
               NextExecutionTime =
                 Some (TimeDatetime \<lparr>wall = 1793790000000000, tzinfo = Some 0\<rparr>)\<rparr> (rows, cs)
            = Inr (rows @ [ex_forecast_row],
                   cs @ [DescribeMaintenanceWindowTargets ''mw-0c50858d01EXAMPLE''])"
    for rows cs
    by (simp add: window_step_def startswith_def ex_world_def today ex_session_def
          ex_target_count ex_forecast_row_def ex_account_def)
  have w2: "window_step (ex_world\<lparr>accounts_csv := accounts\<rparr>) ex_session ex_account
              \<lparr>WindowId = ''mw-0a1b2c3d4eEXAMPLE'', Name = Some ''backup-nightly'',
               NextExecutionTime =
                 Some (TimeDatetime \<lparr>wall = 1793790000000000, tzinfo = Some 0\<rparr>)\<rparr> (rows, cs)
            = Inr (rows, cs)"
    for rows cs
    by (simp add: window_step_def startswith_def)
  have windows: "describe_maintenance_windows (client_ssm ex_session)
                   = [\<lparr>WindowId = ''mw-0c50858d01EXAMPLE'', Name = Some ''mmpatching-prod'',
                       NextExecutionTime =
                         Some (TimeDatetime \<lparr>wall = 1793790000000000, tzinfo = Some 0\<rparr>)\<rparr>,
                      \<lparr>WindowId = ''mw-0a1b2c3d4eEXAMPLE'', Name = Some ''backup-nightly'',
                       NextExecutionTime =
                         Some (TimeDatetime \<lparr>wall = 1793790000000000, tzinfo = Some 0\<rparr>)\<rparr>]"
    by (simp add: ex_session_def ex_pre_ssm_def)
  have acct: "row_account_id ex_account = ''111111111111''"
    "row_role_name ex_account = ''PatchAudit''" "row_region ex_account = ''us-east-1''"
    by (simp_all add: ex_account_def)
  show ?thesis
    by (simp add: account_step_def acct ex_assume_role windows w1 w2 ex_account_calls_def)
qed

lemma ex_denied_step:
  "account_step (ex_world\<lparr>accounts_csv := accounts\<rparr>) ex_denied_account st = Inl ClientError"
  by (cases st) (simp add: account_step_def ex_denied_account_def ex_assume_role)

text \<open>
  C7, as the claim states it, fails: with the accounts \<open>333333333333\<close>, which the broker
  refuses, and \<open>111111111111\<close>, which alone gives one forecast row, the handler ends
  with the broker's exception and the row of the second account is not produced.
\<close>

theorem assume_role_failure_not_isolated_counterexample:
  "lambda_handler (ex_world\<lparr>accounts_csv := [ex_denied_account, ex_account]\<rparr>)
     = Inl ClientError
   \<and> lambda_handler (ex_world\<lparr>accounts_csv := [ex_account]\<rparr>)
       = Inr (\<lparr>status = ''success'', records_written = 1, message = None\<rparr>,
              ex_account_calls @
                [AssumeRole ''111111111111'' ''PatchAudit'' ''us-east-1'',
                 PutForecastRows ''mmpatching-custom-patchbaseline-dev''
                   ''pre_patch_notification/mw-running-today-output.csv'' [ex_forecast_row],
                 SendEmail ''Maintenance Windows Running Today''])"
proof -
  have acct: "row_account_id ex_account = ''111111111111''"
    "row_role_name ex_account = ''PatchAudit''" "row_region ex_account = ''us-east-1''"
    by (simp_all add: ex_account_def)
  have cfg: "email_account_csv (ex_world\<lparr>accounts_csv := accounts\<rparr>) = [ex_account]"
    for accounts by (simp add: ex_world_def)
  show ?thesis
    by (simp add: lambda_handler_def ex_denied_step ex_account_step load_shared_account_def
          cfg acct ex_assume_role)
qed

lemma for_each_preserves_in:
  assumes "\<And>x s s'. x \<in> set xs \<Longrightarrow> P s \<Longrightarrow> body x s = Inr s' \<Longrightarrow> P s'"
    and "P s" and "for_each body xs s = Inr s'"
  shows "P s'"
  using assms
proof (induction xs arbitrary: s)
  case Nil
  then show ?case by simp
next
  case (Cons x xs)
  from Cons.prems(3) obtain s1 where s1: "body x s = Inr s1" "for_each body xs s1 = Inr s'"
    by (auto split: sum.splits)
  from Cons.prems(1) [OF _ Cons.prems(2) s1(1)] have "P s1" by simp
  moreover have "\<And>y t t'. y \<in> set xs \<Longrightarrow> P t \<Longrightarrow> body y t = Inr t' \<Longrightarrow> P t'"
    using Cons.prems(1) by (meson list.set_intros(2))
  ultimately show ?case using Cons.IH s1(2) by blast
qed

lemma get_target_count_queries:
  assumes "list_all (pre_run_query accounts) calls"
  shows "list_all (pre_run_query accounts)
           (snd (get_target_count ssm ec2 resourcegroups window_id calls))"
  using assms
  by (auto simp: get_target_count_eq list_all_iff grouping_calls_def group_calls_def
        tag_calls_def split: if_splits)

lemma window_step_queries:
  assumes "list_all (pre_run_query accounts) (snd s)"
    and "window_step w session row mw s = Inr s'"
  shows "list_all (pre_run_query accounts) (snd s')"
proof -
  obtain rows calls where s: "s = (rows, calls)" by (cases s) auto
  from assms(2) s
  have "snd s' = calls
        \<or> snd s' = snd (get_target_count (client_ssm session) (client_ec2 session)
                         (client_resourcegroups session) (WindowId mw) calls)"
    by (auto simp: window_step_def split: option.splits if_splits sum.splits prod.splits)
  with assms(1) s get_target_count_queries [of accounts calls] show ?thesis by auto
qed

lemma account_step_queries:
  assumes "row \<in> set accounts"
    and "list_all (pre_run_query accounts) (snd s)"
    and "account_step w row s = Inr s'"
  shows "list_all (pre_run_query accounts) (snd s')"
proof -
  obtain rows calls where s: "s = (rows, calls)" by (cases s) auto
  let ?calls = "calls @ [AssumeRole (row_account_id row) (row_role_name row) (row_region row),
                         DescribeMaintenanceWindows]"
  from assms(3) s obtain session
    where loop: "for_each (window_step w session row)
                   (describe_maintenance_windows (client_ssm session)) (rows, ?calls) = Inr s'"
    by (auto simp: account_step_def split: sum.splits)
  from assms(1,2) s have "list_all (pre_run_query accounts) (snd (rows, ?calls))"
    by (auto simp: list_ex_iff)
  from for_each_preserves [where P = "\<lambda>s. list_all (pre_run_query accounts) (snd s)"
         and body = "window_step w session row", OF _ this loop] window_step_queries
  show ?thesis by blast
qed

lemma account_loop_queries:
  assumes "for_each (account_step w) accounts ([], []) = Inr st"
  shows "list_all (pre_run_query accounts) (snd st)"
proof -
  have "list_all (pre_run_query accounts) (snd (([], []) :: nat window_row list \<times> api_call list))"
    by simp
  from for_each_preserves_in [where P = "\<lambda>s. list_all (pre_run_query accounts) (snd s)"
         and body = "account_step w" and xs = accounts, OF _ this assms]
    account_step_queries
  show ?thesis by blast
qed

lemma account_step_accounts_csv:
  "account_step (w\<lparr>accounts_csv := accounts\<rparr>) = account_step w"
proof -
  have ws: "window_step (w\<lparr>accounts_csv := accounts\<rparr>) = window_step w"
    by (intro ext)
       (auto simp: window_step_def split: option.splits sum.splits prod.splits)
  have ar: "assume_role (w\<lparr>accounts_csv := accounts\<rparr>) = assume_role w"
    by (intro ext) (auto simp: assume_role_def split: sum.splits)
  show ?thesis
    by (intro ext) (auto simp: account_step_def ws ar split: sum.splits prod.splits)
qed

text \<open>
  C7, amended. The pre-run loop calls the broker without any handler: when
  \<open>assume_role\<close> raises for an account, after the accounts before it were processed,
  the loop body raises, and \<open>lambda_handler\<close> ends with that exception, whatever
  accounts follow: they are not processed. The failing pass records no query, so the
  queries issued when the exception leaves the handler are those of \<open>st\<close>, the state
  after the accounts before the failing one: broker calls for those accounts only and
  listings of windows, targets, group members and instances. No write of forecast rows
  and no report is among them.
\<close>

theorem assume_role_failure_aborts_handler:
  assumes "accounts_csv w = before @ [row] @ after"
    and "for_each (account_step w) before ([], []) = Inr st"
    and "assume_role w (row_account_id row) (row_role_name row) (row_region row) = Inl e"
  shows "account_step w row st = Inl e \<and> lambda_handler w = Inl e
         \<and> (\<forall>others. lambda_handler (w\<lparr>accounts_csv := before @ [row] @ others\<rparr>) = Inl e)
         \<and> list_all (pre_run_query before) (snd st)
         \<and> (\<forall>bucket key rows subject.
               PutForecastRows bucket key rows \<notin> set (snd st) \<and> SendEmail subject \<notin> set (snd st))"
proof (intro conjI allI)
  from assms(3) show step: "account_step w row st = Inl e"
    by (cases st) (simp add: account_step_def)
  have abort: "for_each (account_step w) (before @ [row] @ others) ([], []) = Inl e" for others
    using step assms(2) by (simp add: for_each_append)
  from abort [of after] assms(1) show "lambda_handler w = Inl e"
    by (simp add: lambda_handler_def)
  show "lambda_handler (w\<lparr>accounts_csv := before @ [row] @ others\<rparr>) = Inl e" for others
    using abort [of others] by (simp add: lambda_handler_def account_step_accounts_csv)
  show q: "list_all (pre_run_query before) (snd st)"
    by (rule account_loop_queries [OF assms(2)])
  show "PutForecastRows bucket key rows \<notin> set (snd st)" for bucket key rows
    using q by (auto simp: list_all_iff)
  show "SendEmail subject \<notin> set (snd st)" for subject
    using q by (auto simp: list_all_iff)
qed

theorem assume_role_failure_aborts_handler_witness:
  "lambda_handler (ex_world\<lparr>accounts_csv := [ex_account, ex_denied_account, ex_account]\<rparr>)
     = Inl ClientError"
proof -
  let ?w = "ex_world\<lparr>accounts_csv := [ex_account, ex_denied_account, ex_account]\<rparr>"
  have a: "accounts_csv ?w = [ex_account] @ [ex_denied_account] @ [ex_account]" by simp
  have b: "for_each (account_step ?w) [ex_account] ([], [])
             = Inr ([] @ [ex_forecast_row], [] @ ex_account_calls)"
    by (simp add: ex_account_step)
  have c: "assume_role ?w (row_account_id ex_denied_account) (row_role_name ex_denied_account)
             (row_region ex_denied_account) = Inl ClientError"
    by (simp add: ex_denied_account_def ex_assume_role)
  from assume_role_failure_aborts_handler [OF a b c] show ?thesis by blast
qed

end
